theory Spec2Isabelle
  imports
    Complex_Main
    "HOL-Library.AList"
    "HOL-Library.Multiset"
    "HOL-Library.Sublist"
    "HOL-Library.Char_ord"
    "HOL-Library.List_Lexorder"
begin

section \<open>Python values, exceptions and library functions\<close>

text \<open>
  The utilities of \<^verbatim>\<open>mcp_memory_service/utils\<close> work on dynamically typed
  metadata. A metadata value is one of Python's JSON-like kinds or an opaque object
  (\<open>PObj\<close>: an instance of some other class, such as a set or an object of a
  class of the program; a tuple is not modelled).
  A dict is an association list in insertion order; its keys are strings, as the
  annotation \<^verbatim>\<open>Dict[str, Any]\<close> says.

  A float is a finite value (modelled as a real: comparison of finite floats is
  exact), an infinity or NaN.
\<close>

datatype pyfloat = Fin real | PInf | NInf | NaN

datatype pyval =
    PNone
  | PBool bool
  | PInt int
  | PFloat pyfloat
  | PStr string
  | PList "pyval list"
  | PDict "(string \<times> pyval) list"
  | PObj nat

type_synonym pydict = "(string \<times> pyval) list"

text \<open>The exception classes: the last three derive from BaseException only, all others
  from Exception.\<close>

datatype exn_class =
    TypeError | ValueError | JSONDecodeError | OverflowError | IndexError
  | AttributeError | OSError | RuntimeError
  | KeyboardInterrupt | SystemExit | CancelledError

text \<open>An exception: its class and \<^verbatim>\<open>str(e)\<close>.\<close>

datatype pyexn = Exn exn_class string

fun exn_str :: "pyexn \<Rightarrow> string" where
  "exn_str (Exn c msg) = msg"

text \<open>\<^verbatim>\<open>except cls\<close> catches \<open>cls\<close> and its subclasses; JSONDecodeError
  derives from ValueError.\<close>

fun caught_by :: "exn_class \<Rightarrow> pyexn \<Rightarrow> bool" where
  "caught_by cls (Exn c msg) = (c = cls \<or> (cls = ValueError \<and> c = JSONDecodeError))"

text \<open>\<^verbatim>\<open>except Exception\<close> catches an exception unless its class derives from
  BaseException only; such an exception goes on to the caller.\<close>

fun is_exception :: "pyexn \<Rightarrow> bool" where
  "is_exception (Exn c msg) = (c \<noteq> KeyboardInterrupt \<and> c \<noteq> SystemExit \<and> c \<noteq> CancelledError)"

text \<open>
  Library functions whose results the utilities only pass on are parameters:
  \<^item> \<open>sha256_hex s\<close> is \<^verbatim>\<open>hashlib.sha256(s.encode('utf-8')).hexdigest()\<close>;
  \<^item> \<open>json_str s\<close> is the JSON string literal of \<open>s\<close>, \<open>float_repr\<close> the
    JSON rendering of a float;
  \<^item> \<open>json_loads s\<close> is \<^verbatim>\<open>json.loads(s)\<close>, \<open>None\<close> when it raises
    JSONDecodeError;
  \<^item> \<open>float_of_str s\<close> is \<^verbatim>\<open>float(s)\<close> on a string, \<open>None\<close> when it raises
    ValueError;
  \<^item> \<open>fround x\<close> is the float nearest to the real number \<open>x\<close> (the rounding of
    every float operation);
  \<^item> \<open>isoformat t\<close> is \<^verbatim>\<open>datetime.fromtimestamp(t).isoformat()\<close>, which raises
    for a timestamp out of the platform's range.
\<close>

record env =
  sha256_hex :: "string \<Rightarrow> string"
  json_str :: "string \<Rightarrow> string"
  float_repr :: "pyfloat \<Rightarrow> string"
  json_loads :: "string \<Rightarrow> pyval option"
  float_of_str :: "string \<Rightarrow> pyfloat option"
  fround :: "real \<Rightarrow> real"
  isoformat :: "pyfloat \<Rightarrow> pyexn + string"

text \<open>\<^verbatim>\<open>d.get(k, default)\<close> on a dict.\<close>

definition dict_get :: "('k \<times> 'v) list \<Rightarrow> 'k \<Rightarrow> 'v \<Rightarrow> 'v" where
  "dict_get d k dflt = (case map_of d k of None \<Rightarrow> dflt | Some v \<Rightarrow> v)"

text \<open>\<^verbatim>\<open>str(n)\<close> for an integer: its decimal digits.\<close>

definition digit_char :: "nat \<Rightarrow> char" where
  "digit_char d = ''0123456789'' ! d"

function str_nat :: "nat \<Rightarrow> string" where
  "str_nat n = (if n < 10 then [digit_char n] else str_nat (n div 10) @ [digit_char (n mod 10)])"
  by pat_completeness auto
termination
  by (relation "measure id") auto

declare str_nat.simps [simp del]

definition str_int :: "int \<Rightarrow> string" where
  "str_int i = (if i < 0 then CHR ''-'' # str_nat (nat (- i)) else str_nat (nat i))"

text \<open>\<^verbatim>\<open>sep.join(parts)\<close>.\<close>

fun join :: "string \<Rightarrow> string list \<Rightarrow> string" where
  "join sep [] = []"
| "join sep [x] = x"
| "join sep (x # y # ys) = x @ sep @ join sep (y # ys)"

text \<open>Evaluating a list of fallible computations in order: the first exception wins.\<close>

fun collect :: "('e + 'a) list \<Rightarrow> 'e + 'a list" where
  "collect [] = Inr []"
| "collect (Inl e # rs) = Inl e"
| "collect (Inr v # rs) = (case collect rs of Inl e \<Rightarrow> Inl e | Inr vs \<Rightarrow> Inr (v # vs))"

section \<open>hashing.py\<close>

text \<open>
  \<^verbatim>\<open>json.dumps(v, sort_keys=True)\<close>: the items of every dict are visited in the
  order of their keys; a value of no JSON kind raises TypeError.
\<close>

fun json_dumps :: "env \<Rightarrow> pyval \<Rightarrow> pyexn + string" where
  "json_dumps E PNone = Inr ''null''"
| "json_dumps E (PBool b) = Inr (if b then ''true'' else ''false'')"
| "json_dumps E (PInt i) = Inr (str_int i)"
| "json_dumps E (PFloat f) = Inr (float_repr E f)"
| "json_dumps E (PStr s) = Inr (json_str E s)"
| "json_dumps E (PList xs) =
     (case collect (map (json_dumps E) xs) of
        Inl e \<Rightarrow> Inl e
      | Inr parts \<Rightarrow> Inr (''['' @ join '', '' parts @ '']''))"
| "json_dumps E (PDict kvs) =
     (case collect (map (\<lambda>kv. case json_dumps E (snd kv) of
                                  Inl e \<Rightarrow> Inl e
                                | Inr s \<Rightarrow> Inr (json_str E (fst kv) @ '': '' @ s))
                        (sort_key fst kvs)) of
        Inl e \<Rightarrow> Inl e
      | Inr parts \<Rightarrow> Inr (''{'' @ join '', '' parts @ ''}''))"
| "json_dumps E (PObj n) = Inl (Exn TypeError ''Object of type object is not JSON serializable'')"

text \<open>\<^verbatim>\<open>isinstance(v, (str, int, float, bool, list, dict))\<close>.\<close>

fun is_serializable_kind :: "pyval \<Rightarrow> bool" where
  "is_serializable_kind PNone = False"
| "is_serializable_kind (PObj n) = False"
| "is_serializable_kind v = True"

text \<open>The loop that fills \<^verbatim>\<open>serializable_metadata\<close>, one item of the metadata
  at a time; \<open>AList.update\<close> is \<^verbatim>\<open>d[k] = v\<close>.\<close>

fun extract_serializable :: "pydict \<Rightarrow> pydict \<Rightarrow> pydict" where
  "extract_serializable [] serializable_metadata = serializable_metadata"
| "extract_serializable ((k, v) # items) serializable_metadata =
     extract_serializable items
       (if is_serializable_kind v then AList.update k v serializable_metadata
        else serializable_metadata)"

definition generate_content_hash :: "env \<Rightarrow> string \<Rightarrow> pydict option \<Rightarrow> pyexn + string" where
  "generate_content_hash E content metadata =
     (let hash_input = content in
      case (case metadata of
              None \<Rightarrow> Inr hash_input
            | Some md \<Rightarrow>
                if md \<noteq> [] then
                  (let serializable_metadata = extract_serializable md [] in
                   if serializable_metadata \<noteq> [] then
                     (case json_dumps E (PDict serializable_metadata) of
                        Inl e \<Rightarrow> Inl e
                      | Inr s \<Rightarrow> Inr (hash_input @ s))
                   else Inr hash_input)
                else Inr hash_input) of
        Inl e \<Rightarrow> Inl e
      | Inr hash_input' \<Rightarrow> Inr (sha256_hex E hash_input'))"

text \<open>A value that \<^verbatim>\<open>json.dumps\<close> accepts: no opaque object anywhere inside.\<close>

fun json_serializable :: "pyval \<Rightarrow> bool" where
  "json_serializable (PList xs) = list_all json_serializable xs"
| "json_serializable (PDict kvs) = list_all (\<lambda>kv. json_serializable (snd kv)) kvs"
| "json_serializable (PObj n) = False"
| "json_serializable v = True"

section \<open>The storage collaborator\<close>

text \<open>
  What the utilities consume of \<^verbatim>\<open>ChromaMemoryStorage\<close>: a collection with
  \<^verbatim>\<open>count()\<close>, \<^verbatim>\<open>get(include=...)\<close> and \<^verbatim>\<open>query(...)\<close>, each of which
  may raise, and the client's \<^verbatim>\<open>get_or_create_collection\<close>. The results are
  columns indexed by position; a query's columns are nested once more, one row per
  query text.
\<close>

record get_result =
  ids :: "string list"
  metadatas :: "pydict list"
  documents :: "string list"

record query_result =
  q_ids :: "string list list"
  q_documents :: "string list list"
  q_metadatas :: "pydict list list"
  q_distances :: "pyfloat list list"

record collection =
  coll_count :: "pyexn + int"
  coll_get :: "pyexn + get_result"
  coll_query :: "string \<Rightarrow> int \<Rightarrow> pyexn + query_result"

record storage =
  collection :: "pyexn + collection"
  get_or_create_collection :: "pyexn + collection"

text \<open>\<^verbatim>\<open>xs[i]\<close> for a non-negative index: IndexError out of range.\<close>

definition py_index :: "'a list \<Rightarrow> nat \<Rightarrow> pyexn + 'a" where
  "py_index xs i =
     (if i < length xs then Inr (xs ! i) else Inl (Exn IndexError ''list index out of range''))"

text \<open>Comparison of floats: every comparison with NaN is false.\<close>

fun flt :: "pyfloat \<Rightarrow> pyfloat \<Rightarrow> bool" where
  "flt (Fin a) (Fin b) = (a < b)"
| "flt (Fin a) PInf = True"
| "flt NInf (Fin b) = True"
| "flt NInf PInf = True"
| "flt a b = False"

section \<open>db\_utils.py: validation\<close>

text \<open>The result is \<open>Inr\<close> of the pair returned, or \<open>Inl\<close> of the exception that
  leaves the function.\<close>

definition validate_database :: "storage \<Rightarrow> pyexn + bool \<times> string" where
  "validate_database storage =
     (case (case collection storage of
              Inl e \<Rightarrow> Inl e
            | Inr coll \<Rightarrow> coll_count coll) of
        Inr cnt \<Rightarrow>
          Inr (True,
               ''Database validated successfully. Contains '' @ str_int cnt @ '' memories.'')
      | Inl e \<Rightarrow>
          if is_exception e then Inr (False, ''Database validation failed: '' @ exn_str e)
          else Inl e)"

section \<open>db\_utils.py: statistics\<close>

text \<open>
  The \<^verbatim>\<open>stats\<close> dict, one field per key. \<open>top_tags\<close> is \<open>None\<close> while the key is
  absent. The histograms are dicts in insertion order; their keys are compared as
  values (Python also takes the keys \<^verbatim>\<open>1\<close>, \<^verbatim>\<open>True\<close> and \<^verbatim>\<open>1.0\<close> for one key;
  the tags of a memory are strings). The result of the function is \<open>Inr\<close> of the
  report returned, or \<open>Inl\<close> of the exception that leaves the function.
\<close>

record stats =
  total_memories :: int
  total_content_length :: int
  avg_content_length :: real
  memory_types :: "(pyval \<times> int) list"
  tags :: "(pyval \<times> int) list"
  oldest_memory :: "string option"
  newest_memory :: "string option"
  collection_name :: string
  embedding_model :: string
  top_tags :: "(pyval \<times> int) list option"

text \<open>The dict together with the two local variables of the scan.\<close>

record scan_state = stats +
  oldest_timestamp :: pyfloat
  newest_timestamp :: pyfloat

datatype stats_report = ErrorReport string | StatsReport stats

text \<open>A list or a dict cannot be a dict key: using one raises TypeError.\<close>

fun hashable :: "pyval \<Rightarrow> bool" where
  "hashable (PList xs) = False"
| "hashable (PDict kvs) = False"
| "hashable v = True"

text \<open>\<^verbatim>\<open>h[k] = h.get(k, 0) + 1\<close>.\<close>

definition dict_incr :: "('k \<times> int) list \<Rightarrow> 'k \<Rightarrow> ('k \<times> int) list" where
  "dict_incr h k = AList.update k (dict_get h k 0 + 1) h"

text \<open>What \<^verbatim>\<open>for tag in tags\<close> iterates over: the elements of a list, the keys of
  a dict, the characters of a string; any other value raises TypeError (\<open>None\<close>).\<close>

fun py_iter :: "pyval \<Rightarrow> pyval list option" where
  "py_iter (PList xs) = Some xs"
| "py_iter (PDict kvs) = Some (map (\<lambda>kv. PStr (fst kv)) kvs)"
| "py_iter (PStr s) = Some (map (\<lambda>c. PStr [c]) s)"
| "py_iter v = None"

text \<open>The loop over the tags of one record. A tag that cannot be a key raises
  TypeError, which ends the loop; the counts made before it stay.\<close>

fun count_tags :: "pyval list \<Rightarrow> (pyval \<times> int) list \<Rightarrow> (pyval \<times> int) list" where
  "count_tags [] h = h"
| "count_tags (tag # rest) h = (if hashable tag then count_tags rest (dict_incr h tag) else h)"

text \<open>The \<^verbatim>\<open>try\<close> block of the tag statistics, with its
  \<^verbatim>\<open>except (json.JSONDecodeError, TypeError): pass\<close>.\<close>

definition tag_stats :: "env \<Rightarrow> pydict \<Rightarrow> (pyval \<times> int) list \<Rightarrow> (pyval \<times> int) list" where
  "tag_stats E metadata h =
     (let tags_str = dict_get metadata ''tags'' (PStr ''[]'') in
      case (case tags_str of PStr s \<Rightarrow> json_loads E s | _ \<Rightarrow> Some (PList [])) of
        None \<Rightarrow> h
      | Some tags' \<Rightarrow> (case py_iter tags' of None \<Rightarrow> h | Some ts \<Rightarrow> count_tags ts h))"

text \<open>Truth value of a Python value, as \<^verbatim>\<open>if timestamp_str:\<close> tests it.\<close>

fun truthy :: "pyval \<Rightarrow> bool" where
  "truthy PNone = False"
| "truthy (PBool b) = b"
| "truthy (PInt i) = (i \<noteq> 0)"
| "truthy (PFloat f) = (f \<noteq> Fin 0)"
| "truthy (PStr s) = (s \<noteq> [])"
| "truthy (PList xs) = (xs \<noteq> [])"
| "truthy (PDict kvs) = (kvs \<noteq> [])"
| "truthy (PObj n) = True"

text \<open>A name between single quotes, and the name of a value's type, as error
  messages print them.\<close>

definition quoted :: "string \<Rightarrow> string" where
  "quoted s = [CHR 0x27] @ s @ [CHR 0x27]"

fun type_name :: "pyval \<Rightarrow> string" where
  "type_name PNone = ''NoneType''"
| "type_name (PBool b) = ''bool''"
| "type_name (PInt i) = ''int''"
| "type_name (PFloat f) = ''float''"
| "type_name (PStr s) = ''str''"
| "type_name (PList xs) = ''list''"
| "type_name (PDict kvs) = ''dict''"
| "type_name (PObj n) = ''object''"

text \<open>\<^verbatim>\<open>float(v)\<close>: a string is parsed, a number converted (an int beyond the
  range of floats raises OverflowError), anything else raises TypeError.\<close>

fun py_float :: "env \<Rightarrow> pyval \<Rightarrow> pyexn + pyfloat" where
  "py_float E (PStr s) =
     (case float_of_str E s of
        None \<Rightarrow> Inl (Exn ValueError (''could not convert string to float: '' @ s))
      | Some f \<Rightarrow> Inr f)"
| "py_float E (PFloat f) = Inr f"
| "py_float E (PInt i) =
     (if \<bar>i\<bar> < 2 ^ 1024 - 2 ^ 970 then Inr (Fin (fround E (real_of_int i)))
      else Inl (Exn OverflowError ''int too large to convert to float''))"
| "py_float E (PBool b) = Inr (Fin (if b then 1 else 0))"
| "py_float E v =
     Inl (Exn TypeError (''float() argument must be a string or a real number, not ''
                         @ quoted (type_name v)))"

text \<open>The body of the inner \<^verbatim>\<open>try\<close> of the timestamp statistics. It returns the
  exception raised, if any, and the state reached: an assignment made before the
  exception stays.\<close>

definition try_timestamp :: "env \<Rightarrow> pyval \<Rightarrow> scan_state \<Rightarrow> pyexn option \<times> scan_state" where
  "try_timestamp E timestamp_str S =
     (case py_float E timestamp_str of
        Inl e \<Rightarrow> (Some e, S)
      | Inr timestamp \<Rightarrow>
          (case (if flt timestamp (oldest_timestamp S) then
                   (let S1 = S\<lparr>oldest_timestamp := timestamp\<rparr> in
                    case isoformat E timestamp of
                      Inl e \<Rightarrow> (Some e, S1)
                    | Inr iso_str \<Rightarrow> (None, S1\<lparr>oldest_memory := Some iso_str\<rparr>))
                 else (None, S)) of
             (Some e, S1) \<Rightarrow> (Some e, S1)
           | (None, S1) \<Rightarrow>
               (if flt (newest_timestamp S1) timestamp then
                  (let S2 = S1\<lparr>newest_timestamp := timestamp\<rparr> in
                   case isoformat E timestamp of
                     Inl e \<Rightarrow> (Some e, S2)
                   | Inr iso_str \<Rightarrow> (None, S2\<lparr>newest_memory := Some iso_str\<rparr>))
                else (None, S1))))"

text \<open>The timestamp statistics of one record: \<^verbatim>\<open>except ValueError: pass\<close> around
  the body; any other exception leaves the scan.\<close>

definition timestamp_stats :: "env \<Rightarrow> pydict \<Rightarrow> scan_state \<Rightarrow> pyexn + scan_state" where
  "timestamp_stats E metadata S =
     (let timestamp_str = dict_get metadata ''timestamp'' PNone in
      if truthy timestamp_str then
        (case try_timestamp E timestamp_str S of
           (None, S') \<Rightarrow> Inr S'
         | (Some e, S') \<Rightarrow> if caught_by ValueError e then Inr S' else Inl e)
      else Inr S)"

text \<open>The loop \<^verbatim>\<open>for i, metadata in enumerate(results["metadatas"])\<close>, from
  index \<open>i\<close> on.\<close>

fun scan :: "env \<Rightarrow> string list \<Rightarrow> nat \<Rightarrow> pydict list \<Rightarrow> scan_state \<Rightarrow> pyexn + scan_state" where
  "scan E docs i [] S = Inr S"
| "scan E docs i (metadata # rest) S =
     (case py_index docs i of
        Inl e \<Rightarrow> Inl e
      | Inr doc \<Rightarrow>
          (let content_length = int (length doc);
               S1 = S\<lparr>total_content_length := total_content_length S + content_length\<rparr>;
               memory_type = dict_get metadata ''memory_type'' (PStr '''')
           in if hashable memory_type then
                (let S2 = S1\<lparr>memory_types := dict_incr (memory_types S1) memory_type\<rparr>;
                     S3 = S2\<lparr>tags := tag_stats E metadata (tags S2)\<rparr>
                 in case timestamp_stats E metadata S3 of
                      Inl e \<Rightarrow> Inl e
                    | Inr S4 \<Rightarrow> scan E docs (Suc i) rest S4)
              else Inl (Exn TypeError (''unhashable type: '' @ quoted (type_name memory_type)))))"

text \<open>\<^verbatim>\<open>sorted(xs, key=key, reverse=True)\<close>: the list is reversed, sorted stably
  and reversed again, so items of equal key keep their order.\<close>

definition sorted_reverse :: "('a \<Rightarrow> int) \<Rightarrow> 'a list \<Rightarrow> 'a list" where
  "sorted_reverse key xs = rev (sort_key key (rev xs))"

definition init_stats :: "int \<Rightarrow> stats" where
  "init_stats cnt =
     \<lparr> total_memories = cnt, total_content_length = 0, avg_content_length = 0,
       memory_types = [], tags = [], oldest_memory = None, newest_memory = None,
       collection_name = ''memory_collection'', embedding_model = ''all-MiniLM-L6-v2'',
       top_tags = None \<rparr>"

definition get_database_stats :: "env \<Rightarrow> storage \<Rightarrow> pyexn + stats_report" where
  "get_database_stats E storage =
     (case (case collection storage of
              Inl e \<Rightarrow> Inl e
            | Inr coll \<Rightarrow>
                (case coll_count coll of
                   Inl e \<Rightarrow> Inl e
                 | Inr cnt \<Rightarrow>
                     (case coll_get coll of
                        Inl e \<Rightarrow> Inl e
                      | Inr results \<Rightarrow>
                          (let stats = init_stats cnt in
                           if ids results \<noteq> [] then
                             (case scan E (documents results) 0 (metadatas results)
                                     (stats.extend stats
                                        \<lparr> oldest_timestamp = PInf, newest_timestamp = Fin 0 \<rparr>) of
                                Inl e \<Rightarrow> Inl e
                              | Inr S \<Rightarrow>
                                  (let stats1 = stats.truncate S;
                                       stats2 =
                                         (if cnt > 0 then
                                            stats1\<lparr>avg_content_length :=
                                              fround E (real_of_int (total_content_length stats1)
                                                        / real_of_int cnt)\<rparr>
                                          else stats1);
                                       sorted_tags = sorted_reverse snd (tags stats2)
                                   in Inr (stats2\<lparr>top_tags :=
                                             Some (if length sorted_tags > 10
                                                   then take 10 sorted_tags
                                                   else sorted_tags)\<rparr>)))
                           else Inr stats)))) of
        Inl e \<Rightarrow> if is_exception e then Inr (ErrorReport (exn_str e)) else Inl e
      | Inr stats \<Rightarrow> Inr (StatsReport stats))"

text \<open>
  For the statements about the tag histogram: the tags one record contributes, in the
  order the scan meets them (the tags its JSON string decodes to, up to the first
  that cannot be a key), the tags of the whole scan, and a list without its repeated
  elements, each kept where it first occurs.
\<close>

definition first_seen :: "'a list \<Rightarrow> 'a list" where
  "first_seen xs = rev (remdups (rev xs))"

definition record_tags :: "env \<Rightarrow> pydict \<Rightarrow> pyval list" where
  "record_tags E metadata =
     (case dict_get metadata ''tags'' (PStr ''[]'') of
        PStr s \<Rightarrow>
          (case json_loads E s of
             None \<Rightarrow> []
           | Some v \<Rightarrow> (case py_iter v of None \<Rightarrow> [] | Some ts \<Rightarrow> takeWhile hashable ts))
      | _ \<Rightarrow> [])"

definition counted_tags :: "env \<Rightarrow> pydict list \<Rightarrow> pyval list" where
  "counted_tags E mds = concat (map (record_tags E) mds)"

fun is_str :: "pyval \<Rightarrow> bool" where
  "is_str (PStr s) = True"
| "is_str v = False"

text \<open>A histogram agrees with a stream of tags: its keys are the tags in the order of
  their first occurrence, and it maps each tag to the number of its occurrences.\<close>

definition hist_ok :: "'a list \<Rightarrow> ('a \<times> int) list \<Rightarrow> bool" where
  "hist_ok stream h =
     (map fst h = first_seen stream \<and> (\<forall>t. dict_get h t 0 = int (count_list stream t)))"

text \<open>The state the scan starts from.\<close>

definition initial_scan_state :: "int \<Rightarrow> scan_state" where
  "initial_scan_state cnt =
     stats.extend (init_stats cnt) \<lparr> oldest_timestamp = PInf, newest_timestamp = Fin 0 \<rparr>"

text \<open>
  For the statements about the timestamps: the float a record's \<^verbatim>\<open>timestamp\<close>
  field parses to, if the field is truthy and \<^verbatim>\<open>float\<close> accepts it, and the parsed
  timestamps of the records of a scan, in scan order.
\<close>

definition parsed_timestamp :: "env \<Rightarrow> pydict \<Rightarrow> pyfloat option" where
  "parsed_timestamp E metadata =
     (let timestamp_str = dict_get metadata ''timestamp'' PNone in
      if truthy timestamp_str then
        (case py_float E timestamp_str of Inl e \<Rightarrow> None | Inr t \<Rightarrow> Some t)
      else None)"

fun parsed_timestamps :: "env \<Rightarrow> pydict list \<Rightarrow> pyfloat list" where
  "parsed_timestamps E [] = []"
| "parsed_timestamps E (metadata # rest) =
     (case parsed_timestamp E metadata of
        None \<Rightarrow> parsed_timestamps E rest
      | Some t \<Rightarrow> t # parsed_timestamps E rest)"

text \<open>The state of the extremum tracking after the finite timestamps \<open>xs\<close>: the
  minimum is tracked from infinity, the maximum from 0.\<close>

definition ts_inv :: "env \<Rightarrow> real list \<Rightarrow> scan_state \<Rightarrow> bool" where
  "ts_inv E xs S =
     (oldest_timestamp S = (if xs = [] then PInf else Fin (Min (set xs)))
      \<and> map_option Inr (oldest_memory S)
          = (if xs = [] then None else Some (isoformat E (Fin (Min (set xs)))))
      \<and> newest_timestamp S = Fin (Max (set (0 # xs)))
      \<and> map_option Inr (newest_memory S)
          = (if \<exists>x \<in> set xs. 0 < x then Some (isoformat E (Fin (Max (set xs)))) else None))"

section \<open>db\_utils.py: repair\<close>

text \<open>
  \<^verbatim>\<open>BACKUPS_PATH\<close> and \<^verbatim>\<open>CHROMA_PATH\<close> come from the package's config module;
  the clock and the file system are collaborators. Every call of a collaborator that
  acts on the file system or on the store is logged, in order, with whether it
  returned (\<open>True\<close>) or raised (\<open>False\<close>).
\<close>

record config =
  BACKUPS_PATH :: string
  CHROMA_PATH :: string

record os_model =
  time_now :: int
  makedirs :: "string \<Rightarrow> pyexn option"
  listdir :: "string \<Rightarrow> pyexn + string list"
  isfile :: "string \<Rightarrow> bool"
  isdir :: "string \<Rightarrow> bool"
  copy2 :: "string \<Rightarrow> string \<Rightarrow> pyexn option"
  copytree :: "string \<Rightarrow> string \<Rightarrow> pyexn option"

datatype effect =
    MakeDirs string
  | Copy2 string string
  | CopyTree string string
  | GetOrCreateCollection

type_synonym effect_log = "(effect \<times> bool) list"

text \<open>\<^verbatim>\<open>os.path.join(a, b)\<close> (POSIX).\<close>

definition path_join :: "string \<Rightarrow> string \<Rightarrow> string" where
  "path_join a b =
     (if b \<noteq> [] \<and> hd b = CHR ''/'' then b
      else if a = [] \<or> last a = CHR ''/'' then a @ b
      else a @ ''/'' @ b)"

text \<open>The loop \<^verbatim>\<open>for item in os.listdir(CHROMA_PATH)\<close>.\<close>

fun copy_items ::
  "os_model \<Rightarrow> string \<Rightarrow> string \<Rightarrow> string list \<Rightarrow> effect_log \<Rightarrow> pyexn option \<times> effect_log"
where
  "copy_items os chroma_path backup_path [] elog = (None, elog)"
| "copy_items os chroma_path backup_path (item # items) elog =
     (let item_path = path_join chroma_path item in
      if isfile os item_path then
        (case copy2 os item_path backup_path of
           Some e \<Rightarrow> (Some e, elog @ [(Copy2 item_path backup_path, False)])
         | None \<Rightarrow>
             copy_items os chroma_path backup_path items
               (elog @ [(Copy2 item_path backup_path, True)]))
      else if isdir os item_path then
        (case copytree os item_path (path_join backup_path item) of
           Some e \<Rightarrow>
             (Some e, elog @ [(CopyTree item_path (path_join backup_path item), False)])
         | None \<Rightarrow>
             copy_items os chroma_path backup_path items
               (elog @ [(CopyTree item_path (path_join backup_path item), True)]))
      else copy_items os chroma_path backup_path items elog)"

record repair_outcome =
  result :: "pyexn + bool \<times> string"
  effects :: effect_log
  storage_after :: storage

text \<open>The handler \<^verbatim>\<open>except Exception\<close> of the repair: the pair it returns, or the
  exception it does not catch.\<close>

definition repair_failed :: "pyexn \<Rightarrow> pyexn + bool \<times> string" where
  "repair_failed e =
     (if is_exception e then Inr (False, ''Database repair failed: '' @ exn_str e) else Inl e)"

definition backup_path_of :: "os_model \<Rightarrow> config \<Rightarrow> string" where
  "backup_path_of os cfg = path_join (BACKUPS_PATH cfg) (''chroma_backup_'' @ str_int (time_now os))"

definition repair_database :: "os_model \<Rightarrow> config \<Rightarrow> storage \<Rightarrow> repair_outcome" where
  "repair_database os cfg storage =
     (let backup_path = backup_path_of os cfg in
      case makedirs os backup_path of
        Some e \<Rightarrow>
          \<lparr> result = repair_failed e, effects = [(MakeDirs backup_path, False)],
            storage_after = storage \<rparr>
      | None \<Rightarrow>
          (let log1 = [(MakeDirs backup_path, True)] in
           case listdir os (CHROMA_PATH cfg) of
             Inl e \<Rightarrow> \<lparr> result = repair_failed e, effects = log1, storage_after = storage \<rparr>
           | Inr items \<Rightarrow>
               (case copy_items os (CHROMA_PATH cfg) backup_path items log1 of
                  (Some e, log2) \<Rightarrow>
                    \<lparr> result = repair_failed e, effects = log2, storage_after = storage \<rparr>
                | (None, log2) \<Rightarrow>
                    (case get_or_create_collection storage of
                       Inl e \<Rightarrow>
                         \<lparr> result = repair_failed e,
                           effects = log2 @ [(GetOrCreateCollection, False)],
                           storage_after = storage \<rparr>
                     | Inr coll \<Rightarrow>
                         (let storage' = storage\<lparr>collection := Inr coll\<rparr> in
                          case validate_database storage' of
                            Inl e \<Rightarrow>
                              \<lparr> result = repair_failed e,
                                effects = log2 @ [(GetOrCreateCollection, True)],
                                storage_after = storage' \<rparr>
                          | Inr (is_valid, message) \<Rightarrow>
                              \<lparr> result =
                                  Inr (if is_valid then
                                         (True,
                                          ''Database repaired successfully. Backup created at ''
                                          @ backup_path)
                                       else
                                         (False,
                                          ''Repair attempt completed but validation still fails: ''
                                          @ message)),
                                effects = log2 @ [(GetOrCreateCollection, True)],
                                storage_after = storage' \<rparr>)))))"

text \<open>The copies a complete backup of the listed items consists of, in order.\<close>

fun backup_copies :: "os_model \<Rightarrow> string \<Rightarrow> string \<Rightarrow> string list \<Rightarrow> effect list" where
  "backup_copies os chroma_path backup_path [] = []"
| "backup_copies os chroma_path backup_path (item # items) =
     (if isfile os (path_join chroma_path item) then
        Copy2 (path_join chroma_path item) backup_path
          # backup_copies os chroma_path backup_path items
      else if isdir os (path_join chroma_path item) then
        CopyTree (path_join chroma_path item) (path_join backup_path item)
          # backup_copies os chroma_path backup_path items
      else backup_copies os chroma_path backup_path items)"

section \<open>debug.py: retrieval with debug information\<close>

text \<open>\<^verbatim>\<open>Memory\<close> and \<^verbatim>\<open>MemoryQueryResult\<close> of the package's models, with the
  fields the retrieval fills.\<close>

record memory =
  content :: string
  content_hash :: pyval
  memory_tags :: pyval
  memory_type :: pyval

record debug_info =
  raw_distance :: pyfloat
  raw_similarity :: pyfloat
  memory_id :: string
  debug_embedding_model :: string

record memory_query_result =
  memory :: memory
  similarity :: pyfloat
  debug_info :: debug_info

text \<open>\<^verbatim>\<open>1 - distance\<close> on floats.\<close>

fun one_minus :: "env \<Rightarrow> pyfloat \<Rightarrow> pyfloat" where
  "one_minus E (Fin d) = Fin (fround E (1 - d))"
| "one_minus E PInf = NInf"
| "one_minus E NInf = PInf"
| "one_minus E NaN = NaN"

text \<open>\<^verbatim>\<open>column[0][i]\<close>.\<close>

definition first_row_at :: "'a list list \<Rightarrow> nat \<Rightarrow> pyexn + 'a" where
  "first_row_at column i = (case py_index column 0 of Inl e \<Rightarrow> Inl e | Inr row \<Rightarrow> py_index row i)"

text \<open>The loop \<^verbatim>\<open>for i in range(len(results["ids"][0]))\<close> over the remaining
  indices.\<close>

fun retrieve_loop ::
  "env \<Rightarrow> query_result \<Rightarrow> pyfloat \<Rightarrow> nat list \<Rightarrow> memory_query_result list
     \<Rightarrow> pyexn + memory_query_result list"
where
  "retrieve_loop E results similarity_threshold [] memory_results = Inr memory_results"
| "retrieve_loop E results similarity_threshold (i # rest) memory_results =
     (case first_row_at (q_metadatas results) i of
        Inl e \<Rightarrow> Inl e
      | Inr metadata \<Rightarrow>
          (case first_row_at (q_documents results) i of
             Inl e \<Rightarrow> Inl e
           | Inr doc \<Rightarrow>
               (let mem = \<lparr> content = doc,
                            content_hash = dict_get metadata ''content_hash'' (PStr ''''),
                            memory_tags = dict_get metadata ''tags'' (PList []),
                            memory_type = dict_get metadata ''memory_type'' (PStr '''') \<rparr>
                in case first_row_at (q_distances results) i of
                     Inl e \<Rightarrow> Inl e
                   | Inr distance \<Rightarrow>
                       (let sim = one_minus E distance in
                        if flt sim similarity_threshold then
                          retrieve_loop E results similarity_threshold rest memory_results
                        else
                          (case first_row_at (q_ids results) i of
                             Inl e \<Rightarrow> Inl e
                           | Inr mid \<Rightarrow>
                               retrieve_loop E results similarity_threshold rest
                                 (memory_results @
                                    [\<lparr> memory = mem, similarity = sim,
                                       debug_info =
                                         \<lparr> raw_distance = distance, raw_similarity = sim,
                                           memory_id = mid,
                                           debug_embedding_model = ''all-MiniLM-L6-v2'' \<rparr> \<rparr>]))))))"

definition debug_retrieve_memory ::
  "env \<Rightarrow> storage \<Rightarrow> string \<Rightarrow> int \<Rightarrow> pyfloat
     \<Rightarrow> pyexn + memory_query_result list"
where
  "debug_retrieve_memory E storage query n_results similarity_threshold =
     (case (case collection storage of
              Inl e \<Rightarrow> Inl e
            | Inr coll \<Rightarrow>
                (case coll_query coll query n_results of
                   Inl e \<Rightarrow> Inl e
                 | Inr results \<Rightarrow>
                     (case q_ids results of
                        [] \<Rightarrow> Inr []
                      | ids0 # other \<Rightarrow>
                          if ids0 = [] then Inr []
                          else retrieve_loop E results similarity_threshold
                                 [0..<length ids0] []))) of
        Inl e \<Rightarrow> if is_exception e then Inr [] else Inl e
      | Inr memory_results \<Rightarrow> Inr memory_results)"

text \<open>The result built for position \<open>i\<close> of a query result whose columns are
  complete.\<close>

definition result_at :: "env \<Rightarrow> query_result \<Rightarrow> nat \<Rightarrow> memory_query_result" where
  "result_at E results i =
     (let metadata = hd (q_metadatas results) ! i;
          distance = hd (q_distances results) ! i
      in \<lparr> memory =
             \<lparr> content = hd (q_documents results) ! i,
               content_hash = dict_get metadata ''content_hash'' (PStr ''''),
               memory_tags = dict_get metadata ''tags'' (PList []),
               memory_type = dict_get metadata ''memory_type'' (PStr '''') \<rparr>,
           similarity = one_minus E distance,
           debug_info =
             \<lparr> raw_distance = distance, raw_similarity = one_minus E distance,
               memory_id = hd (q_ids results) ! i,
               debug_embedding_model = ''all-MiniLM-L6-v2'' \<rparr> \<rparr>)"

text \<open>A query result whose four columns have one row of the same length each.\<close>

definition complete_columns :: "query_result \<Rightarrow> bool" where
  "complete_columns results =
     (q_ids results \<noteq> [] \<and> q_metadatas results \<noteq> [] \<and> q_documents results \<noteq> []
      \<and> q_distances results \<noteq> []
      \<and> length (hd (q_metadatas results)) = length (hd (q_ids results))
      \<and> length (hd (q_documents results)) = length (hd (q_ids results))
      \<and> length (hd (q_distances results)) = length (hd (q_ids results)))"

text \<open>What holds of every result returned: its similarity is \<^verbatim>\<open>1 - distance\<close> of
  its raw distance, unclamped, and is not below the threshold.\<close>

definition unclamped_kept :: "env \<Rightarrow> pyfloat \<Rightarrow> memory_query_result \<Rightarrow> bool" where
  "unclamped_kept E thr r =
     (similarity r = one_minus E (raw_distance (debug_info r)) \<and> \<not> flt (similarity r) thr)"

text \<open>A distance that is not negative.\<close>

fun nonneg_distance :: "pyfloat \<Rightarrow> bool" where
  "nonneg_distance (Fin d) = (0 \<le> d)"
| "nonneg_distance PInf = True"
| "nonneg_distance d = False"

section \<open>Example inputs\<close>

text \<open>
  An environment and stores for the examples. The library functions of the example
  environment are stand-ins defined on the inputs the examples use; the theorems
  hold for every environment.
\<close>

definition demo_loads :: "string \<Rightarrow> pyval option" where
  "demo_loads s =
     (if s = ''[a, b]'' then Some (PList [PStr ''a'', PStr ''b''])
      else if s = ''[b]'' then Some (PList [PStr ''b''])
      else if s = ''[]'' then Some (PList [])
      else None)"

definition demo_float_of_str :: "string \<Rightarrow> pyfloat option" where
  "demo_float_of_str s =
     (if s = ''-5'' then Some (Fin (- 5))
      else if s = ''100'' then Some (Fin 100)
      else if s = ''250'' then Some (Fin 250)
      else None)"

definition demo_isoformat :: "pyfloat \<Rightarrow> pyexn + string" where
  "demo_isoformat t =
     (case t of
        Fin x \<Rightarrow> Inr (''epoch'' @ str_int \<lfloor>x\<rfloor>)
      | NaN \<Rightarrow> Inl (Exn ValueError ''cannot convert float NaN to integer'')
      | _ \<Rightarrow> Inl (Exn OverflowError ''cannot convert float infinity to integer''))"

definition demo_env :: env where
  "demo_env =
     \<lparr> sha256_hex = (\<lambda>s. ''sha256:'' @ s),
       json_str = (\<lambda>s. ''<'' @ s @ ''>''),
       float_repr = (\<lambda>f. ''float''),
       json_loads = demo_loads,
       float_of_str = demo_float_of_str,
       fround = (\<lambda>x. x),
       isoformat = demo_isoformat \<rparr>"

definition demo_results :: query_result where
  "demo_results =
     \<lparr> q_ids = [[''m1'', ''m2'', ''m3'']],
       q_documents = [[''first'', ''second'', ''third'']],
       q_metadatas = [[[(''content_hash'', PStr ''h1'')], [], [(''memory_type'', PStr ''note'')]]],
       q_distances = [[Fin (1 / 10), Fin (1 / 2), Fin (3 / 2)]] \<rparr>"

definition demo_empty_get :: get_result where
  "demo_empty_get = \<lparr> ids = [], metadatas = [], documents = [] \<rparr>"

definition demo_collection :: collection where
  "demo_collection =
     \<lparr> coll_count = Inr 0, coll_get = Inr demo_empty_get,
       coll_query = (\<lambda>q n. Inr demo_results) \<rparr>"

definition demo_broken_collection :: collection where
  "demo_broken_collection =
     \<lparr> coll_count = Inl (Exn RuntimeError ''index is corrupt''),
       coll_get = Inl (Exn RuntimeError ''index is corrupt''),
       coll_query = (\<lambda>q n. Inl (Exn RuntimeError ''index is corrupt'')) \<rparr>"

definition demo_store :: storage where
  "demo_store =
     \<lparr> collection = Inr demo_collection, get_or_create_collection = Inr demo_collection \<rparr>"

definition demo_broken_store :: storage where
  "demo_broken_store =
     \<lparr> collection = Inr demo_broken_collection,
       get_or_create_collection = Inl (Exn RuntimeError ''index is corrupt'') \<rparr>"

definition demo_down_store :: storage where
  "demo_down_store =
     \<lparr> collection = Inl (Exn AttributeError ''no collection''),
       get_or_create_collection = Inl (Exn RuntimeError ''store is down'') \<rparr>"

definition demo_cancelled_store :: storage where
  "demo_cancelled_store =
     \<lparr> collection =
         Inr \<lparr> coll_count = Inl (Exn CancelledError []),
               coll_get = Inl (Exn CancelledError []),
               coll_query = (\<lambda>q n. Inl (Exn CancelledError [])) \<rparr>,
       get_or_create_collection = Inl (Exn CancelledError []) \<rparr>"

definition demo_zero_store :: storage where
  "demo_zero_store =
     (let coll = \<lparr> coll_count = Inr 1,
                    coll_get = Inr \<lparr> ids = [''m1''],
                                     metadatas = [[(''timestamp'', PInt 0)]],
                                     documents = [''old''] \<rparr>,
                    coll_query = (\<lambda>q n. Inr demo_results) \<rparr>
      in \<lparr> collection = Inr coll, get_or_create_collection = Inr coll \<rparr>)"

definition demo_native_tags_store :: storage where
  "demo_native_tags_store =
     (let coll = \<lparr> coll_count = Inr 1,
                    coll_get = Inr \<lparr> ids = [''m1''],
                                     metadatas = [[(''tags'', PList [PStr ''a''])]],
                                     documents = [''doc''] \<rparr>,
                    coll_query = (\<lambda>q n. Inr demo_results) \<rparr>
      in \<lparr> collection = Inr coll, get_or_create_collection = Inr coll \<rparr>)"

definition demo_list_timestamp_store :: storage where
  "demo_list_timestamp_store =
     (let coll = \<lparr> coll_count = Inr 1,
                    coll_get = Inr \<lparr> ids = [''m1''],
                                     metadatas = [[(''timestamp'', PList [PInt 1])]],
                                     documents = [''doc''] \<rparr>,
                    coll_query = (\<lambda>q n. Inr demo_results) \<rparr>
      in \<lparr> collection = Inr coll, get_or_create_collection = Inr coll \<rparr>)"

definition demo_os :: os_model where
  "demo_os =
     \<lparr> time_now = 1700000000,
       makedirs = (\<lambda>p. None),
       listdir = (\<lambda>p. if p = ''/data/chroma'' then Inr [''chroma.sqlite3'', ''index'', ''lock'']
                      else Inl (Exn OSError ''No such file or directory'')),
       isfile = (\<lambda>p. p = ''/data/chroma/chroma.sqlite3''),
       isdir = (\<lambda>p. p = ''/data/chroma/index''),
       copy2 = (\<lambda>src dst. None),
       copytree = (\<lambda>src dst. None) \<rparr>"

definition demo_config :: config where
  "demo_config = \<lparr> BACKUPS_PATH = ''/data/backups'', CHROMA_PATH = ''/data/chroma'' \<rparr>"

definition demo_tagged_results :: get_result where
  "demo_tagged_results =
     \<lparr> ids = [''m1'', ''m2'', ''m3''],
       metadatas =
         [[(''tags'', PStr ''[a, b]''), (''timestamp'', PStr ''100'')],
          [(''tags'', PStr ''[b]''), (''timestamp'', PStr ''-5'')],
          [(''tags'', PStr ''not-json''), (''timestamp'', PStr ''250'')]],
       documents = [''one'', ''two'', ''three''] \<rparr>"

definition demo_tagged_collection :: collection where
  "demo_tagged_collection =
     \<lparr> coll_count = Inr 3, coll_get = Inr demo_tagged_results,
       coll_query = (\<lambda>q n. Inr demo_results) \<rparr>"

definition demo_tagged_store :: storage where
  "demo_tagged_store =
     \<lparr> collection = Inr demo_tagged_collection,
       get_or_create_collection = Inr demo_tagged_collection \<rparr>"

definition demo_tagged_report :: stats where
  "demo_tagged_report =
     \<lparr> total_memories = 3, total_content_length = 11, avg_content_length = 11 / 3,
       memory_types = [(PStr [], 3)], tags = [(PStr ''a'', 1), (PStr ''b'', 2)],
       oldest_memory = Some ''epoch-5'', newest_memory = Some ''epoch250'',
       collection_name = ''memory_collection'', embedding_model = ''all-MiniLM-L6-v2'',
       top_tags = Some [(PStr ''b'', 2), (PStr ''a'', 1)] \<rparr>"

definition demo_negative_store :: storage where
  "demo_negative_store =
     (let coll = \<lparr> coll_count = Inr 1,
                    coll_get = Inr \<lparr> ids = [''m1''],
                                     metadatas = [[(''timestamp'', PStr ''-5'')]],
                                     documents = [''old''] \<rparr>,
                    coll_query = (\<lambda>q n. Inr demo_results) \<rparr>
      in \<lparr> collection = Inr coll, get_or_create_collection = Inr coll \<rparr>)"

section \<open>Properties of hashing.py\<close>

lemma update_fresh: "k \<notin> fst ` set d \<Longrightarrow> AList.update k v d = d @ [(k, v)]"
  by (induction d) auto

lemma extract_serializable_distinct:
  "distinct (map fst md) \<Longrightarrow> fst ` set md \<inter> fst ` set acc = {} \<Longrightarrow>
   extract_serializable md acc = acc @ filter (\<lambda>kv. is_serializable_kind (snd kv)) md"
proof (induction md arbitrary: acc)
  case Nil
  then show ?case by simp
next
  case (Cons kv md)
  obtain k v where kv: "kv = (k, v)" by (cases kv)
  show ?case
  proof (cases "is_serializable_kind v")
    case True
    have fresh: "k \<notin> fst ` set acc" using Cons.prems(2) kv by auto
    have "fst ` set md \<inter> fst ` set (acc @ [(k, v)]) = {}"
      using Cons.prems kv by auto
    moreover have "distinct (map fst md)" using Cons.prems(1) by simp
    ultimately show ?thesis
      using Cons.IH[of "acc @ [(k, v)]"] True kv by (simp add: update_fresh[OF fresh])
  next
    case False
    have "fst ` set md \<inter> fst ` set acc = {}" using Cons.prems(2) by auto
    moreover have "distinct (map fst md)" using Cons.prems(1) by simp
    ultimately show ?thesis using Cons.IH[of acc] False kv by simp
  qed
qed

lemma sort_key_fst_eq:
  assumes "distinct (map fst xs)" "distinct (map fst ys)" "set xs = set ys"
  shows "sort_key fst xs = sort_key fst (ys :: (string \<times> 'a) list)"
proof -
  have dx: "distinct xs" and dy: "distinct ys"
    using assms(1,2) by (simp_all add: distinct_map)
  have m: "mset xs = mset ys"
    using assms(3) dx dy by (simp add: set_eq_iff_mset_eq_distinct)
  have inj: "inj_on fst (set xs)"
    using assms(1) by (simp add: distinct_map)
  have "sort_key fst xs = sort_key fst ys"
  proof (rule sort_key_inj_key_eq)
    show "mset xs = mset (sort_key fst ys)" using m by simp
    show "inj_on fst (set xs)" by (rule inj)
    show "sorted (map fst (sort_key fst ys))" by simp
  qed
  then show ?thesis .
qed

lemma collect_all_Inr:
  "(\<And>x. x \<in> set xs \<Longrightarrow> \<exists>s. f x = Inr s) \<Longrightarrow> \<exists>ss. collect (map f xs) = Inr ss"
proof (induction xs)
  case Nil
  then show ?case by simp
next
  case (Cons x xs)
  then obtain s where "f x = Inr s" by auto
  moreover obtain ss where "collect (map f xs) = Inr ss" using Cons by auto
  ultimately show ?case by simp
qed

lemma json_dumps_serializable:
  "json_serializable v \<Longrightarrow> \<exists>s. json_dumps E v = Inr s"
proof (induction E v rule: json_dumps.induct)
  case (6 E xs)
  have "\<exists>ss. collect (map (json_dumps E) xs) = Inr ss"
    by (rule collect_all_Inr) (use 6 in \<open>auto simp: list_all_iff\<close>)
  then show ?case by auto
next
  case (7 E kvs)
  have "\<exists>ss. collect (map (\<lambda>kv. case json_dumps E (snd kv) of
                                  Inl e \<Rightarrow> Inl e
                                | Inr s \<Rightarrow> Inr (json_str E (fst kv) @ '': '' @ s))
                        (sort_key fst kvs)) = Inr ss"
  proof (rule collect_all_Inr)
    fix kv assume "kv \<in> set (sort_key fst kvs)"
    then have "kv \<in> set kvs" by simp
    then obtain s where "json_dumps E (snd kv) = Inr s"
      using 7 by (fastforce simp: list_all_iff)
    then show "\<exists>s. (case json_dumps E (snd kv) of
                                  Inl e \<Rightarrow> Inl e
                                | Inr s \<Rightarrow> Inr (json_str E (fst kv) @ '': '' @ s)) = Inr s"
      by simp
  qed
  then show ?case by auto
qed simp_all

text \<open>
  C1. For every content string and every two metadata dicts that are equal as maps
  (the same key-value pairs, in any insertion order), \<open>generate_content_hash\<close>
  returns the same result; when every value is JSON-serializable that result is a
  hash string.
\<close>

theorem generate_content_hash_order_independent:
  assumes "distinct (map fst m1)" and "distinct (map fst m2)"
    and "map_of m1 = map_of m2"
    and "list_all (\<lambda>kv. json_serializable (snd kv)) m1"
  shows "generate_content_hash E c (Some m1) = generate_content_hash E c (Some m2)
       \<and> (\<exists>h. generate_content_hash E c (Some m1) = Inr h)"
proof -
  let ?P = "\<lambda>kv. is_serializable_kind (snd kv)"
  have s: "set m1 = set m2"
    using assms(1-3) by (simp add: map_of_inject_set)
  have e1: "extract_serializable m1 [] = filter ?P m1"
    using extract_serializable_distinct[OF assms(1), of "[]"] by simp
  have e2: "extract_serializable m2 [] = filter ?P m2"
    using extract_serializable_distinct[OF assms(2), of "[]"] by simp
  have nil: "m1 = [] \<longleftrightarrow> m2 = []"
    using s by (metis set_empty)
  have fnil: "filter ?P m1 = [] \<longleftrightarrow> filter ?P m2 = []"
    using s by (simp add: filter_empty_conv)
  have "sort_key fst (filter ?P m1) = sort_key fst (filter ?P m2)"
  proof (rule sort_key_fst_eq)
    show "distinct (map fst (filter ?P m1))" using assms(1) by (rule distinct_map_filter)
    show "distinct (map fst (filter ?P m2))" using assms(2) by (rule distinct_map_filter)
    show "set (filter ?P m1) = set (filter ?P m2)" using s by simp
  qed
  then have d: "json_dumps E (PDict (filter ?P m1)) = json_dumps E (PDict (filter ?P m2))"
    by simp
  have eq: "generate_content_hash E c (Some m1) = generate_content_hash E c (Some m2)"
    using nil fnil d by (simp add: generate_content_hash_def Let_def e1 e2 del: json_dumps.simps)
  have "json_serializable (PDict (filter ?P m1))"
    using assms(4) by (simp add: list_all_iff)
  then obtain s where "json_dumps E (PDict (filter ?P m1)) = Inr s"
    using json_dumps_serializable by blast
  then have "\<exists>h. generate_content_hash E c (Some m1) = Inr h"
    by (simp add: generate_content_hash_def Let_def e1 del: json_dumps.simps)
  with eq show ?thesis by simp
qed

theorem generate_content_hash_order_independent_witness:
  "generate_content_hash demo_env ''c''
      (Some [(''b'', PInt 12), (''a'', PList [PStr ''x'', PBool True])])
   = generate_content_hash demo_env ''c''
      (Some [(''a'', PList [PStr ''x'', PBool True]), (''b'', PInt 12)])
   \<and> (\<exists>h. generate_content_hash demo_env ''c''
      (Some [(''b'', PInt 12), (''a'', PList [PStr ''x'', PBool True])]) = Inr h)"
proof -
  let ?m1 = "[(''b'', PInt 12), (''a'', PList [PStr ''x'', PBool True])]"
  let ?m2 = "[(''a'', PList [PStr ''x'', PBool True]), (''b'', PInt 12)]"
  have h1: "distinct (map fst ?m1)" by simp
  have h2: "distinct (map fst ?m2)" by simp
  have h3: "map_of ?m1 = map_of ?m2" by (rule ext) simp
  have h4: "list_all (\<lambda>kv. json_serializable (snd kv)) ?m1" by simp
  show ?thesis by (rule generate_content_hash_order_independent[OF h1 h2 h3 h4])
qed

text \<open>
  C5. The filter of \<open>generate_content_hash\<close> looks at the kind of each top-level
  value only: a list (or dict) that holds an opaque object passes it, and
  \<^verbatim>\<open>json.dumps\<close> then raises TypeError, which the function does not catch.
\<close>

theorem generate_content_hash_nested_object_raises:
  "generate_content_hash E ''c'' (Some [(''k'', PList [PObj 0])])
   = Inl (Exn TypeError ''Object of type object is not JSON serializable'')"
  by (simp add: generate_content_hash_def)

section \<open>Properties of validate\_database\<close>

lemma str_int_0: "str_int 0 = ''0''"
  by (simp add: str_int_def str_nat.simps digit_char_def)

text \<open>
  C7. \<open>validate_database\<close> catches what \<^verbatim>\<open>except Exception\<close> catches: when reading
  the collection or counting its records raises an exception that derives from
  Exception, it returns \<open>False\<close> with a message that carries the cause; when the
  count is \<open>n\<close>, it returns \<open>True\<close> with a message ending in
  "Contains n memories."; an exception that derives from BaseException only leaves
  the function.
\<close>

theorem validate_database_guard:
  "(\<forall>e. collection storage = Inl e \<and> is_exception e \<longrightarrow>
      validate_database storage = Inr (False, ''Database validation failed: '' @ exn_str e))
   \<and> (\<forall>coll e. collection storage = Inr coll \<and> coll_count coll = Inl e \<and> is_exception e \<longrightarrow>
      validate_database storage = Inr (False, ''Database validation failed: '' @ exn_str e))
   \<and> (\<forall>coll n. collection storage = Inr coll \<and> coll_count coll = Inr n \<longrightarrow>
      (\<exists>message. validate_database storage = Inr (True, message)
         \<and> suffix (''Contains '' @ str_int n @ '' memories.'') message))
   \<and> (\<forall>e. collection storage = Inl e \<and> \<not> is_exception e \<longrightarrow>
      validate_database storage = Inl e)
   \<and> (\<forall>coll e. collection storage = Inr coll \<and> coll_count coll = Inl e \<and> \<not> is_exception e \<longrightarrow>
      validate_database storage = Inl e)"
proof (intro conjI allI impI)
  fix e assume "collection storage = Inl e \<and> is_exception e"
  then show "validate_database storage
             = Inr (False, ''Database validation failed: '' @ exn_str e)"
    by (simp add: validate_database_def)
next
  fix coll e assume "collection storage = Inr coll \<and> coll_count coll = Inl e \<and> is_exception e"
  then show "validate_database storage
             = Inr (False, ''Database validation failed: '' @ exn_str e)"
    by (simp add: validate_database_def)
next
  fix coll n assume "collection storage = Inr coll \<and> coll_count coll = Inr n"
  then have "validate_database storage =
     Inr (True, ''Database validated successfully. Contains '' @ str_int n @ '' memories.'')"
    by (simp add: validate_database_def)
  moreover have "suffix (''Contains '' @ str_int n @ '' memories.'')
     (''Database validated successfully. '' @ (''Contains '' @ str_int n @ '' memories.''))"
    by (rule suffix_appendI) simp
  ultimately show "\<exists>message. validate_database storage = Inr (True, message)
         \<and> suffix (''Contains '' @ str_int n @ '' memories.'') message"
    by simp
next
  fix e assume "collection storage = Inl e \<and> \<not> is_exception e"
  then show "validate_database storage = Inl e"
    by (simp add: validate_database_def)
next
  fix coll e
  assume "collection storage = Inr coll \<and> coll_count coll = Inl e \<and> \<not> is_exception e"
  then show "validate_database storage = Inl e"
    by (simp add: validate_database_def)
qed

theorem validate_database_guard_witness:
  "validate_database demo_down_store
     = Inr (False, ''Database validation failed: no collection'')
   \<and> validate_database demo_broken_store
       = Inr (False, ''Database validation failed: index is corrupt'')
   \<and> (\<exists>message. validate_database demo_store = Inr (True, message)
        \<and> suffix ''Contains 0 memories.'' message)
   \<and> validate_database demo_cancelled_store = Inl (Exn CancelledError [])"
proof -
  have a: "collection demo_down_store = Inl (Exn AttributeError ''no collection'')
           \<and> is_exception (Exn AttributeError ''no collection'')"
    by (simp add: demo_down_store_def)
  have b: "collection demo_broken_store = Inr demo_broken_collection
           \<and> coll_count demo_broken_collection = Inl (Exn RuntimeError ''index is corrupt'')
           \<and> is_exception (Exn RuntimeError ''index is corrupt'')"
    by (simp add: demo_broken_store_def demo_broken_collection_def)
  have c: "collection demo_store = Inr demo_collection \<and> coll_count demo_collection = Inr 0"
    by (simp add: demo_store_def demo_collection_def)
  have d: "collection demo_cancelled_store
             = Inr \<lparr> coll_count = Inl (Exn CancelledError []),
                     coll_get = Inl (Exn CancelledError []),
                     coll_query = (\<lambda>q n. Inl (Exn CancelledError [])) \<rparr>
           \<and> coll_count \<lparr> coll_count = Inl (Exn CancelledError []),
                     coll_get = Inl (Exn CancelledError []),
                     coll_query = (\<lambda>q n. Inl (Exn CancelledError [])) \<rparr>
               = Inl (Exn CancelledError [])
           \<and> \<not> is_exception (Exn CancelledError [])"
    by (simp add: demo_cancelled_store_def)
  from validate_database_guard[of demo_down_store] a
  have 1: "validate_database demo_down_store
           = Inr (False, ''Database validation failed: no collection'')"
    by simp
  from validate_database_guard[of demo_broken_store] b
  have 2: "validate_database demo_broken_store
           = Inr (False, ''Database validation failed: index is corrupt'')"
    by simp
  from validate_database_guard[of demo_store] c
  have 3: "\<exists>message. validate_database demo_store = Inr (True, message)
        \<and> suffix ''Contains 0 memories.'' message"
    by (simp add: str_int_0)
  from validate_database_guard[of demo_cancelled_store] d
  have 4: "validate_database demo_cancelled_store = Inl (Exn CancelledError [])"
    by blast
  show ?thesis using 1 2 3 4 by simp
qed

text \<open>
  A store whose \<^verbatim>\<open>count()\<close> raises \<^verbatim>\<open>asyncio.CancelledError\<close>: the exception is
  not caught and reaches the caller.
\<close>

theorem validate_database_cancelled_counterexample:
  "validate_database demo_cancelled_store = Inl (Exn CancelledError [])"
  by (simp add: validate_database_def demo_cancelled_store_def)

section \<open>Properties of debug\_retrieve\_memory\<close>

lemma flt_irrefl: "\<not> flt x x"
  by (cases x) auto

lemma first_row_at_complete:
  "column \<noteq> [] \<Longrightarrow> i < length (hd column) \<Longrightarrow> first_row_at column i = Inr (hd column ! i)"
  by (cases column) (auto simp: first_row_at_def py_index_def)

lemma retrieve_loop_complete:
  assumes "complete_columns results" and "\<forall>i \<in> set idxs. i < length (hd (q_ids results))"
  shows "retrieve_loop E results thr idxs acc =
         Inr (acc @ map (result_at E results)
                (filter (\<lambda>i. \<not> flt (one_minus E (hd (q_distances results) ! i)) thr) idxs))"
  using assms(2)
proof (induction idxs arbitrary: acc)
  case Nil
  then show ?case by simp
next
  case (Cons i idxs)
  have i: "i < length (hd (q_ids results))" using Cons.prems by simp
  have m: "first_row_at (q_metadatas results) i = Inr (hd (q_metadatas results) ! i)"
    using assms(1) i by (intro first_row_at_complete) (auto simp: complete_columns_def)
  have d: "first_row_at (q_documents results) i = Inr (hd (q_documents results) ! i)"
    using assms(1) i by (intro first_row_at_complete) (auto simp: complete_columns_def)
  have ds: "first_row_at (q_distances results) i = Inr (hd (q_distances results) ! i)"
    using assms(1) i by (intro first_row_at_complete) (auto simp: complete_columns_def)
  have k: "first_row_at (q_ids results) i = Inr (hd (q_ids results) ! i)"
    using assms(1) i by (intro first_row_at_complete) (auto simp: complete_columns_def)
  have rest: "\<forall>i \<in> set idxs. i < length (hd (q_ids results))" using Cons.prems by simp
  show ?case
    by (simp add: m d ds k Cons.IH[OF rest] Let_def result_at_def)
qed

lemma retrieve_loop_kept:
  "retrieve_loop E results thr idxs acc = Inr out \<Longrightarrow> list_all (unclamped_kept E thr) acc
   \<Longrightarrow> list_all (unclamped_kept E thr) out"
proof (induction idxs arbitrary: acc)
  case Nil
  then show ?case by simp
next
  case (Cons i idxs)
  from Cons.prems(1) consider
      (skip) "retrieve_loop E results thr idxs acc = Inr out"
    | (keep) r where "retrieve_loop E results thr idxs (acc @ [r]) = Inr out"
        and "unclamped_kept E thr r"
    by (simp add: Let_def unclamped_kept_def split: sum.splits if_splits)
  then show ?case
  proof cases
    case skip
    then show ?thesis using Cons.IH Cons.prems(2) by blast
  next
    case keep
    have "list_all (unclamped_kept E thr) (acc @ [r])"
      using Cons.prems(2) keep(2) by simp
    then show ?thesis using Cons.IH keep(1) by blast
  qed
qed

lemma one_minus_below:
  assumes "mono (fround E)" "fround E 1 = 1" "1 < t" "nonneg_distance d"
  shows "flt (one_minus E d) (Fin t)"
proof (cases d)
  case (Fin x)
  then have "0 \<le> x" using assms(4) by simp
  then have "1 - x \<le> 1" by simp
  then have "fround E (1 - x) \<le> fround E 1" using assms(1) by (rule monoD[rotated])
  then show ?thesis using Fin assms(2,3) by simp
qed (use assms(4) in auto)

lemma first_row_at_mem:
  assumes "first_row_at column i = Inr x"
  shows "x \<in> set (concat column)"
proof (cases column)
  case Nil
  then show ?thesis using assms by (simp add: first_row_at_def py_index_def)
next
  case (Cons row other)
  then have "i < length row \<and> x = row ! i"
    using assms by (simp add: first_row_at_def py_index_def split: if_splits)
  then have "x \<in> set row" by simp
  then show ?thesis using Cons by simp
qed

lemma retrieve_loop_all_below:
  assumes "\<And>d. d \<in> set (concat (q_distances results)) \<Longrightarrow> flt (one_minus E d) thr"
  shows "retrieve_loop E results thr idxs acc = Inr out \<Longrightarrow> out = acc"
proof (induction idxs arbitrary: acc)
  case Nil
  then show ?case by simp
next
  case (Cons i idxs)
  have below: "flt (one_minus E d) thr" if "first_row_at (q_distances results) i = Inr d" for d
    by (rule assms[OF first_row_at_mem[OF that]])
  from Cons.prems have "retrieve_loop E results thr idxs acc = Inr out"
    by (simp add: Let_def below split: sum.splits if_splits)
  then show ?case by (rule Cons.IH)
qed

lemma demo_complete: "complete_columns demo_results"
  by (simp add: complete_columns_def demo_results_def)

lemma first_row_at_Inl: "first_row_at column i = Inl e \<Longrightarrow> is_exception e"
  by (auto simp: first_row_at_def py_index_def split: if_splits sum.splits)

lemma retrieve_loop_Inl:
  "retrieve_loop E results thr idxs acc = Inl e \<Longrightarrow> is_exception e"
proof (induction idxs arbitrary: acc)
  case Nil
  then show ?case by simp
next
  case (Cons i idxs)
  show ?case
  proof (cases "first_row_at (q_metadatas results) i")
    case (Inl x)
    then show ?thesis using Cons.prems first_row_at_Inl[OF Inl] by simp
  next
    case m: (Inr metadata)
    show ?thesis
    proof (cases "first_row_at (q_documents results) i")
      case (Inl x)
      then show ?thesis using Cons.prems m first_row_at_Inl[OF Inl] by simp
    next
      case d: (Inr doc)
      show ?thesis
      proof (cases "first_row_at (q_distances results) i")
        case (Inl x)
        then show ?thesis using Cons.prems m d first_row_at_Inl[OF Inl] by (simp add: Let_def)
      next
        case ds: (Inr distance)
        show ?thesis
        proof (cases "flt (one_minus E distance) thr")
          case True
          then have "retrieve_loop E results thr idxs acc = Inl e"
            using Cons.prems m d ds by (simp add: Let_def)
          then show ?thesis by (rule Cons.IH)
        next
          case False
          show ?thesis
          proof (cases "first_row_at (q_ids results) i")
            case (Inl x)
            then show ?thesis
              using Cons.prems m d ds False first_row_at_Inl[OF Inl] by (simp add: Let_def)
          next
            case (Inr mid)
            then have "\<exists>acc'. retrieve_loop E results thr idxs acc' = Inl e"
              using Cons.prems m d ds False by (auto simp: Let_def)
            then show ?thesis using Cons.IH by blast
          qed
        qed
      qed
    qed
  qed
qed

lemma debug_retrieve_memory_loop:
  assumes "collection storage = Inr coll" and "coll_query coll query n_results = Inr results"
    and "q_ids results \<noteq> []" and "hd (q_ids results) \<noteq> []"
  shows "debug_retrieve_memory E storage query n_results thr =
     (case retrieve_loop E results thr [0..<length (hd (q_ids results))] [] of
        Inl e \<Rightarrow> Inr []
      | Inr out \<Rightarrow> Inr out)"
proof (cases "retrieve_loop E results thr [0..<length (hd (q_ids results))] []")
  case (Inl e)
  then show ?thesis
    using assms retrieve_loop_Inl[OF Inl]
    by (cases "q_ids results") (simp_all add: debug_retrieve_memory_def)
next
  case (Inr out)
  then show ?thesis
    using assms by (cases "q_ids results") (simp_all add: debug_retrieve_memory_def)
qed

lemma debug_retrieve_memory_no_ids:
  assumes "collection storage = Inr coll" and "coll_query coll query n_results = Inr results"
    and "q_ids results = [] \<or> hd (q_ids results) = []"
  shows "debug_retrieve_memory E storage query n_results thr = Inr []"
  using assms by (cases "q_ids results") (simp_all add: debug_retrieve_memory_def)

text \<open>
  C8. Every result of \<open>debug_retrieve_memory\<close> has the similarity
  \<^verbatim>\<open>1 - distance\<close>, unclamped, and none is below the threshold; on a query result
  with complete columns the results are exactly those of the positions whose
  similarity is not below the threshold, in the order of the ranking; and with a
  threshold above 1 (such as 1.1) and no negative distance the result is empty.
\<close>

theorem debug_retrieve_memory_threshold:
  assumes "collection storage = Inr coll" and "coll_query coll query n_results = Inr results"
  shows "(\<exists>out. debug_retrieve_memory E storage query n_results thr = Inr out
            \<and> list_all (unclamped_kept E thr) out)
    \<and> (complete_columns results \<longrightarrow>
         debug_retrieve_memory E storage query n_results thr =
           Inr (map (result_at E results)
                  (filter (\<lambda>i. \<not> flt (one_minus E (hd (q_distances results) ! i)) thr)
                     [0..<length (hd (q_ids results))])))
    \<and> (mono (fround E) \<and> fround E 1 = 1 \<and> 1 < t
         \<and> list_all nonneg_distance (concat (q_distances results)) \<longrightarrow>
         debug_retrieve_memory E storage query n_results (Fin t) = Inr [])"
proof (intro conjI impI)
  show "\<exists>out. debug_retrieve_memory E storage query n_results thr = Inr out
            \<and> list_all (unclamped_kept E thr) out"
  proof (cases "q_ids results = [] \<or> hd (q_ids results) = []")
    case True
    then show ?thesis using debug_retrieve_memory_no_ids[OF assms] by simp
  next
    case False
    then have ne: "q_ids results \<noteq> []" "hd (q_ids results) \<noteq> []" by simp_all
    note loop = debug_retrieve_memory_loop[OF assms ne, of E thr]
    show ?thesis
    proof (cases "retrieve_loop E results thr [0..<length (hd (q_ids results))] []")
      case (Inl e)
      then show ?thesis using loop by simp
    next
      case (Inr out)
      have "list_all (unclamped_kept E thr) out"
        by (rule retrieve_loop_kept[OF Inr]) simp
      then show ?thesis using loop Inr by simp
    qed
  qed
next
  assume c: "complete_columns results"
  then have ne: "q_ids results \<noteq> []" by (simp add: complete_columns_def)
  have l: "retrieve_loop E results thr [0..<length (hd (q_ids results))] [] =
        Inr ([] @ map (result_at E results)
             (filter (\<lambda>i. \<not> flt (one_minus E (hd (q_distances results) ! i)) thr)
                [0..<length (hd (q_ids results))]))"
    by (rule retrieve_loop_complete[OF c]) simp
  show "debug_retrieve_memory E storage query n_results thr =
           Inr (map (result_at E results)
             (filter (\<lambda>i. \<not> flt (one_minus E (hd (q_distances results) ! i)) thr)
                [0..<length (hd (q_ids results))]))"
  proof (cases "hd (q_ids results) = []")
    case True
    then show ?thesis using debug_retrieve_memory_no_ids[OF assms, of E thr] by simp
  next
    case False
    then show ?thesis using debug_retrieve_memory_loop[OF assms ne False, of E thr] l by simp
  qed
next
  assume h: "mono (fround E) \<and> fround E 1 = 1 \<and> 1 < t
         \<and> list_all nonneg_distance (concat (q_distances results))"
  have below: "\<And>d. d \<in> set (concat (q_distances results)) \<Longrightarrow> flt (one_minus E d) (Fin t)"
    using h by (intro one_minus_below) (auto simp: list_all_iff)
  show "debug_retrieve_memory E storage query n_results (Fin t) = Inr []"
  proof (cases "q_ids results = [] \<or> hd (q_ids results) = []")
    case True
    then show ?thesis using debug_retrieve_memory_no_ids[OF assms] by simp
  next
    case False
    then have ne: "q_ids results \<noteq> []" "hd (q_ids results) \<noteq> []" by simp_all
    note loop = debug_retrieve_memory_loop[OF assms ne, of E "Fin t"]
    show ?thesis
    proof (cases "retrieve_loop E results (Fin t) [0..<length (hd (q_ids results))] []")
      case (Inl e)
      then show ?thesis using loop by simp
    next
      case (Inr out)
      have "out = []" by (rule retrieve_loop_all_below[OF below Inr])
      then show ?thesis using loop Inr by simp
    qed
  qed
qed

theorem debug_retrieve_memory_threshold_witness:
  "(\<exists>out. debug_retrieve_memory demo_env demo_store ''q'' 5 (Fin (1 / 2)) = Inr out
       \<and> list_all (unclamped_kept demo_env (Fin (1 / 2))) out)
   \<and> debug_retrieve_memory demo_env demo_store ''q'' 5 (Fin (1 / 2))
       = Inr [result_at demo_env demo_results 0, result_at demo_env demo_results 1]
   \<and> debug_retrieve_memory demo_env demo_store ''q'' 5 (Fin (11 / 10)) = Inr []"
proof -
  have a: "collection demo_store = Inr demo_collection" by (simp add: demo_store_def)
  have b: "coll_query demo_collection ''q'' 5 = Inr demo_results"
    by (simp add: demo_collection_def)
  have m: "mono (fround demo_env) \<and> fround demo_env 1 = 1 \<and> (1::real) < 11 / 10
           \<and> list_all nonneg_distance (concat (q_distances demo_results))"
    by (simp add: demo_env_def demo_results_def mono_def)
  have f: "map (result_at demo_env demo_results)
             (filter (\<lambda>i. \<not> flt (one_minus demo_env (hd (q_distances demo_results) ! i))
                               (Fin (1 / 2)))
                [0..<length (hd (q_ids demo_results))])
           = [result_at demo_env demo_results 0, result_at demo_env demo_results 1]"
    by (simp add: demo_results_def demo_env_def upt_rec)
  from debug_retrieve_memory_threshold[OF a b, of demo_env "Fin (1 / 2)" "11 / 10"]
  have 1: "\<exists>out. debug_retrieve_memory demo_env demo_store ''q'' 5 (Fin (1 / 2)) = Inr out
       \<and> list_all (unclamped_kept demo_env (Fin (1 / 2))) out"
    and 2: "debug_retrieve_memory demo_env demo_store ''q'' 5 (Fin (1 / 2))
       = Inr (map (result_at demo_env demo_results)
             (filter (\<lambda>i. \<not> flt (one_minus demo_env (hd (q_distances demo_results) ! i))
                               (Fin (1 / 2)))
                [0..<length (hd (q_ids demo_results))]))"
    and 3: "debug_retrieve_memory demo_env demo_store ''q'' 5 (Fin (11 / 10)) = Inr []"
    using demo_complete m by blast+
  show ?thesis using 1 2 3 f by simp
qed

text \<open>
  C10. A result whose similarity equals the threshold is returned: the comparison
  that excludes a result is strict.
\<close>

theorem debug_retrieve_memory_threshold_inclusive:
  assumes "collection storage = Inr coll" and "coll_query coll query n_results = Inr results"
    and "complete_columns results" and "i < length (hd (q_ids results))"
    and "one_minus E (hd (q_distances results) ! i) = thr"
  shows "\<exists>out. debug_retrieve_memory E storage query n_results thr = Inr out
       \<and> result_at E results i \<in> set out
       \<and> similarity (result_at E results i) = thr"
proof -
  have ne: "q_ids results \<noteq> []" using assms(3) by (simp add: complete_columns_def)
  have ne0: "hd (q_ids results) \<noteq> []" using assms(4) by auto
  have "retrieve_loop E results thr [0..<length (hd (q_ids results))] [] =
        Inr ([] @ map (result_at E results)
             (filter (\<lambda>i. \<not> flt (one_minus E (hd (q_distances results) ! i)) thr)
                [0..<length (hd (q_ids results))]))"
    by (rule retrieve_loop_complete[OF assms(3)]) simp
  then have "debug_retrieve_memory E storage query n_results thr =
           Inr (map (result_at E results)
             (filter (\<lambda>i. \<not> flt (one_minus E (hd (q_distances results) ! i)) thr)
                [0..<length (hd (q_ids results))]))"
    using debug_retrieve_memory_loop[OF assms(1,2) ne ne0, of E thr] by simp
  moreover have "\<not> flt (one_minus E (hd (q_distances results) ! i)) thr"
    using assms(5) flt_irrefl by simp
  ultimately show ?thesis
    using assms(4,5) by (auto simp: result_at_def Let_def)
qed

theorem debug_retrieve_memory_threshold_inclusive_witness:
  "\<exists>out. debug_retrieve_memory demo_env demo_store ''q'' 5 (Fin (1 / 2)) = Inr out
     \<and> result_at demo_env demo_results 1 \<in> set out
     \<and> similarity (result_at demo_env demo_results 1) = Fin (1 / 2)"
proof -
  have a: "collection demo_store = Inr demo_collection" by (simp add: demo_store_def)
  have b: "coll_query demo_collection ''q'' 5 = Inr demo_results"
    by (simp add: demo_collection_def)
  have i: "1 < length (hd (q_ids demo_results))" by (simp add: demo_results_def)
  have e: "one_minus demo_env (hd (q_distances demo_results) ! 1) = Fin (1 / 2)"
    by (simp add: demo_results_def demo_env_def)
  show ?thesis
    by (rule debug_retrieve_memory_threshold_inclusive[OF a b demo_complete i e])
qed

section \<open>Properties of repair\_database\<close>

lemma copy_items_log:
  "copy_items os cp bp items elog = (r, elog') \<Longrightarrow>
   \<exists>cs. elog' = elog @ cs \<and> GetOrCreateCollection \<notin> fst ` set cs
      \<and> (r = None \<longrightarrow> cs = map (\<lambda>c. (c, True)) (backup_copies os cp bp items))"
proof (induction items arbitrary: elog)
  case Nil
  then show ?case by simp
next
  case (Cons item items)
  let ?p = "path_join cp item"
  consider (regular) "isfile os ?p" | (directory) "\<not> isfile os ?p" and "isdir os ?p"
    | (other) "\<not> isfile os ?p" and "\<not> isdir os ?p" by blast
  then show ?case
  proof cases
    case regular
    show ?thesis
    proof (cases "copy2 os ?p bp")
      case None
      with regular Cons.prems
      have "copy_items os cp bp items (elog @ [(Copy2 ?p bp, True)]) = (r, elog')"
        by (simp add: Let_def)
      from Cons.IH[OF this] obtain cs where
        "elog' = (elog @ [(Copy2 ?p bp, True)]) @ cs" "GetOrCreateCollection \<notin> fst ` set cs"
        "r = None \<longrightarrow> cs = map (\<lambda>c. (c, True)) (backup_copies os cp bp items)"
        by blast
      then show ?thesis using regular
        by (intro exI[of _ "(Copy2 ?p bp, True) # cs"]) simp
    next
      case (Some e)
      with regular Cons.prems have "r = Some e" and "elog' = elog @ [(Copy2 ?p bp, False)]"
        by (simp_all add: Let_def)
      then show ?thesis by simp
    qed
  next
    case directory
    show ?thesis
    proof (cases "copytree os ?p (path_join bp item)")
      case None
      with directory Cons.prems
      have "copy_items os cp bp items (elog @ [(CopyTree ?p (path_join bp item), True)])
            = (r, elog')"
        by (simp add: Let_def)
      from Cons.IH[OF this] obtain cs where
        "elog' = (elog @ [(CopyTree ?p (path_join bp item), True)]) @ cs"
        "GetOrCreateCollection \<notin> fst ` set cs"
        "r = None \<longrightarrow> cs = map (\<lambda>c. (c, True)) (backup_copies os cp bp items)"
        by blast
      then show ?thesis using directory
        by (intro exI[of _ "(CopyTree ?p (path_join bp item), True) # cs"]) simp
    next
      case (Some e)
      with directory Cons.prems have "r = Some e"
        and "elog' = elog @ [(CopyTree ?p (path_join bp item), False)]"
        by (simp_all add: Let_def)
      then show ?thesis by simp
    qed
  next
    case other
    with Cons.prems have "copy_items os cp bp items elog = (r, elog')"
      by (simp add: Let_def)
    from Cons.IH[OF this] show ?thesis using other by simp
  qed
qed

lemma split_at_unique:
  assumes "g \<notin> fst ` set xs" and "xs @ [(g, b)] = pre @ (g, ok) # post"
  shows "pre = xs \<and> post = [] \<and> ok = b"
  using assms
proof (induction xs arbitrary: pre)
  case Nil
  then show ?case by (cases pre) auto
next
  case (Cons x xs)
  show ?case
  proof (cases pre)
    case Nil
    with Cons.prems show ?thesis by auto
  next
    case (Cons p pre')
    with Cons.prems have "p = x" "xs @ [(g, b)] = pre' @ (g, ok) # post" by auto
    moreover have "g \<notin> fst ` set xs" using Cons.prems(1) by auto
    ultimately have "pre' = xs \<and> post = [] \<and> ok = b" using Cons.IH by blast
    then show ?thesis using Cons \<open>p = x\<close> by simp
  qed
qed

lemma no_split:
  "g \<notin> fst ` set xs \<Longrightarrow> xs \<noteq> pre @ (g, ok) # post"
  by force

text \<open>
  C6. Whenever \<open>repair_database\<close> asks the client for the collection, whether that
  call then returns or raises, the calls made before it are exactly the creation of
  the backup directory and the copies of all listed files and directories into it, in
  this order and all successful; nothing is done to the file system after it.
\<close>

theorem repair_database_backup_first:
  assumes "effects (repair_database os cfg storage) = pre @ (GetOrCreateCollection, ok) # post"
  shows "post = []
     \<and> makedirs os (backup_path_of os cfg) = None
     \<and> (\<exists>items. listdir os (CHROMA_PATH cfg) = Inr items
          \<and> pre = (MakeDirs (backup_path_of os cfg), True)
                  # map (\<lambda>c. (c, True))
                      (backup_copies os (CHROMA_PATH cfg) (backup_path_of os cfg) items))
     \<and> ok = (\<exists>coll. get_or_create_collection storage = Inr coll)"
proof -
  let ?bp = "backup_path_of os cfg"
  let ?G = GetOrCreateCollection
  show ?thesis
  proof (cases "makedirs os ?bp")
    case (Some e)
    then have "effects (repair_database os cfg storage) = [(MakeDirs ?bp, False)]"
      by (simp add: repair_database_def Let_def)
    moreover have "?G \<notin> fst ` set [(MakeDirs ?bp, False)]" by simp
    ultimately show ?thesis using assms no_split by metis
  next
    case None
    show ?thesis
    proof (cases "listdir os (CHROMA_PATH cfg)")
      case (Inl e)
      then have "effects (repair_database os cfg storage) = [(MakeDirs ?bp, True)]"
        using None by (simp add: repair_database_def Let_def)
      moreover have "?G \<notin> fst ` set [(MakeDirs ?bp, True)]" by simp
      ultimately show ?thesis using assms no_split by metis
    next
      case (Inr items)
      obtain r log2 where ci:
        "copy_items os (CHROMA_PATH cfg) ?bp items [(MakeDirs ?bp, True)] = (r, log2)"
        by (cases "copy_items os (CHROMA_PATH cfg) ?bp items [(MakeDirs ?bp, True)]")
      from copy_items_log[OF ci] obtain cs where cs:
        "log2 = [(MakeDirs ?bp, True)] @ cs" "?G \<notin> fst ` set cs"
        "r = None \<longrightarrow> cs = map (\<lambda>c. (c, True))
                               (backup_copies os (CHROMA_PATH cfg) ?bp items)"
        by blast
      have nog: "?G \<notin> fst ` set log2" using cs(1,2) by auto
      show ?thesis
      proof (cases r)
        case (Some e)
        then have "effects (repair_database os cfg storage) = log2"
          using None Inr ci by (simp add: repair_database_def Let_def)
        then show ?thesis using assms no_split[OF nog] by metis
      next
        case rNone: None
        define b where "b = (\<exists>coll. get_or_create_collection storage = Inr coll)"
        have b: "effects (repair_database os cfg storage) = log2 @ [(?G, b)]"
        proof (cases "get_or_create_collection storage")
          case (Inl e)
          then show ?thesis using None Inr ci rNone
            by (simp add: repair_database_def Let_def b_def)
        next
          case (Inr coll)
          then show ?thesis using None \<open>listdir os (CHROMA_PATH cfg) = Inr items\<close> ci rNone
            by (simp add: repair_database_def Let_def b_def split: prod.splits sum.splits)
        qed
        from split_at_unique[OF nog] assms b
        have "pre = log2 \<and> post = [] \<and> ok = b" by metis
        then show ?thesis using cs(1,3) rNone None Inr b_def by simp
      qed
    qed
  qed
qed

lemma demo_backup_path:
  "backup_path_of demo_os demo_config = ''/data/backups/chroma_backup_1700000000''"
  by (simp add: backup_path_of_def demo_os_def demo_config_def path_join_def str_int_def
      str_nat.simps digit_char_def)

lemma demo_repair_effects:
  "effects (repair_database demo_os demo_config demo_broken_store) =
     [(MakeDirs ''/data/backups/chroma_backup_1700000000'', True),
      (Copy2 ''/data/chroma/chroma.sqlite3'' ''/data/backups/chroma_backup_1700000000'', True),
      (CopyTree ''/data/chroma/index'' ''/data/backups/chroma_backup_1700000000/index'', True)]
     @ (GetOrCreateCollection, False) # []"
  by (simp add: repair_database_def demo_backup_path Let_def)
     (simp add: demo_os_def demo_config_def demo_broken_store_def path_join_def)

theorem repair_database_backup_first_witness:
  "([] :: effect_log) = []
   \<and> makedirs demo_os (backup_path_of demo_os demo_config) = None
   \<and> (\<exists>items. listdir demo_os (CHROMA_PATH demo_config) = Inr items
        \<and> [(MakeDirs ''/data/backups/chroma_backup_1700000000'', True),
            (Copy2 ''/data/chroma/chroma.sqlite3'' ''/data/backups/chroma_backup_1700000000'',
             True),
            (CopyTree ''/data/chroma/index'' ''/data/backups/chroma_backup_1700000000/index'',
             True)]
          = (MakeDirs (backup_path_of demo_os demo_config), True)
            # map (\<lambda>c. (c, True))
                (backup_copies demo_os (CHROMA_PATH demo_config)
                   (backup_path_of demo_os demo_config) items))
   \<and> False = (\<exists>coll. get_or_create_collection demo_broken_store = Inr coll)"
  by (rule repair_database_backup_first[OF demo_repair_effects])

section \<open>Properties of get\_database\_stats\<close>

text \<open>
  C2. A record whose \<^verbatim>\<open>tags\<close> field is a native list: the expression
  \<^verbatim>\<open>json.loads(tags_str) if isinstance(tags_str, str) else []\<close> replaces the list by
  the empty list, so none of its tags is counted.
\<close>

theorem get_database_stats_native_tags_dropped:
  "get_database_stats E demo_native_tags_store =
     Inr (StatsReport
       \<lparr> total_memories = 1, total_content_length = 3, avg_content_length = fround E 3,
         memory_types = [(PStr '''', 1)], tags = [], oldest_memory = None,
         newest_memory = None, collection_name = ''memory_collection'',
         embedding_model = ''all-MiniLM-L6-v2'', top_tags = Some [] \<rparr>)"
  by (simp add: get_database_stats_def demo_native_tags_store_def Let_def init_stats_def
      py_index_def dict_get_def dict_incr_def tag_stats_def timestamp_stats_def
      stats.extend_def stats.truncate_def sorted_reverse_def)

text \<open>
  C3. A record whose \<^verbatim>\<open>timestamp\<close> field is a non-empty list: \<^verbatim>\<open>float\<close> raises
  TypeError, which \<^verbatim>\<open>except ValueError\<close> does not catch, and the whole call returns
  the error report.
\<close>

theorem get_database_stats_list_timestamp_error:
  "get_database_stats E demo_list_timestamp_store =
     Inr (ErrorReport (''float() argument must be a string or a real number, not ''
                       @ [CHR 0x27] @ ''list'' @ [CHR 0x27]))"
  by (simp add: quoted_def get_database_stats_def demo_list_timestamp_store_def Let_def init_stats_def
      py_index_def dict_get_def dict_incr_def tag_stats_def timestamp_stats_def
      try_timestamp_def stats.extend_def stats.truncate_def sorted_reverse_def)

lemma first_seen_snoc:
  "first_seen (xs @ [t]) = (if t \<in> set xs then first_seen xs else first_seen xs @ [t])"
  by (simp add: first_seen_def)

lemma set_first_seen: "set (first_seen xs) = set xs"
  by (simp add: first_seen_def)

lemma count_list_snoc: "count_list (xs @ [t]) u = count_list xs u + (if t = u then 1 else 0)"
  by (induction xs) auto

lemma dict_get_incr:
  "dict_get (dict_incr h t) u 0 = (if u = t then dict_get h t 0 + 1 else dict_get h u 0)"
  by (simp add: dict_get_def dict_incr_def update_conv')

lemma hist_ok_incr:
  assumes "hist_ok stream h"
  shows "hist_ok (stream @ [t]) (dict_incr h t)"
proof -
  have keys: "map fst h = first_seen stream" and cnt: "\<And>u. dict_get h u 0 = int (count_list stream u)"
    using assms by (simp_all add: hist_ok_def)
  have mem: "t \<in> set (map fst h) \<longleftrightarrow> t \<in> set stream"
    using keys set_first_seen[of stream] by simp
  have "map fst (dict_incr h t) = first_seen (stream @ [t])"
    unfolding dict_incr_def update_keys first_seen_snoc using mem keys by simp
  moreover have "dict_get (dict_incr h t) u 0 = int (count_list (stream @ [t]) u)" for u
    by (simp add: dict_get_incr cnt count_list_snoc)
  ultimately show ?thesis by (simp add: hist_ok_def)
qed

lemma hist_ok_count_tags:
  "hist_ok stream h \<Longrightarrow> hist_ok (stream @ takeWhile hashable ts) (count_tags ts h)"
proof (induction ts arbitrary: stream h)
  case Nil
  then show ?case by simp
next
  case (Cons t ts)
  show ?case
  proof (cases "hashable t")
    case True
    have "hist_ok ((stream @ [t]) @ takeWhile hashable ts) (count_tags ts (dict_incr h t))"
      by (rule Cons.IH[OF hist_ok_incr[OF Cons.prems]])
    then show ?thesis using True by simp
  next
    case False
    then show ?thesis using Cons.prems by simp
  qed
qed

lemma hist_ok_tag_stats:
  assumes "hist_ok stream h"
  shows "hist_ok (stream @ record_tags E md) (tag_stats E md h)"
proof (cases "dict_get md ''tags'' (PStr ''[]'')")
  case (PStr s)
  show ?thesis
  proof (cases "json_loads E s")
    case None
    then show ?thesis using PStr assms by (simp add: tag_stats_def record_tags_def)
  next
    case (Some v)
    show ?thesis
    proof (cases "py_iter v")
      case None
      then show ?thesis using PStr Some assms by (simp add: tag_stats_def record_tags_def)
    next
      case (Some ts)
      then show ?thesis
        using PStr \<open>json_loads E s = Some v\<close> hist_ok_count_tags[OF assms, of ts]
        by (simp add: tag_stats_def record_tags_def)
    qed
  qed
qed (use assms in \<open>simp_all add: tag_stats_def record_tags_def\<close>)

lemma try_timestamp_tags: "tags (snd (try_timestamp E v S)) = tags S"
  by (simp add: try_timestamp_def Let_def split: sum.splits prod.splits option.splits)

lemma timestamp_stats_tags:
  assumes "timestamp_stats E md S = Inr S'"
  shows "tags S' = tags S"
proof (cases "truthy (dict_get md ''timestamp'' PNone)")
  case True
  obtain r S1 where t: "try_timestamp E (dict_get md ''timestamp'' PNone) S = (r, S1)"
    by (cases "try_timestamp E (dict_get md ''timestamp'' PNone) S")
  then have "tags S1 = tags S" using try_timestamp_tags[of E "dict_get md ''timestamp'' PNone" S]
    by simp
  moreover have "S' = S1"
    using assms True t by (simp add: timestamp_stats_def split: option.splits if_splits)
  ultimately show ?thesis by simp
next
  case False
  then show ?thesis using assms by (simp add: timestamp_stats_def)
qed

lemma scan_Cons_Inr:
  assumes "scan E docs i (md # rest) S = Inr S'"
  obtains S4 where
    "timestamp_stats E md
       (S\<lparr>total_content_length := total_content_length S + int (length (docs ! i)),
          memory_types := dict_incr (memory_types S) (dict_get md ''memory_type'' (PStr '''')),
          tags := tag_stats E md (tags S)\<rparr>) = Inr S4"
    and "scan E docs (Suc i) rest S4 = Inr S'"
  using assms
  by (auto simp: Let_def py_index_def split: sum.splits if_splits)

lemma scan_tags:
  "scan E docs i mds S = Inr S' \<Longrightarrow> hist_ok stream (tags S)
   \<Longrightarrow> hist_ok (stream @ counted_tags E mds) (tags S')"
proof (induction mds arbitrary: i S stream)
  case Nil
  then show ?case by (simp add: counted_tags_def)
next
  case (Cons md rest)
  from Cons.prems(1) obtain S4 where
    ts: "timestamp_stats E md
       (S\<lparr>total_content_length := total_content_length S + int (length (docs ! i)),
          memory_types := dict_incr (memory_types S) (dict_get md ''memory_type'' (PStr '''')),
          tags := tag_stats E md (tags S)\<rparr>) = Inr S4"
    and rest: "scan E docs (Suc i) rest S4 = Inr S'"
    by (rule scan_Cons_Inr)
  have "tags S4 = tag_stats E md (tags S)"
    using timestamp_stats_tags[OF ts] by simp
  then have "hist_ok (stream @ record_tags E md) (tags S4)"
    using hist_ok_tag_stats[OF Cons.prems(2)] by simp
  from Cons.IH[OF rest this] show ?case by (simp add: counted_tags_def)
qed

lemma top_ten: "(if length xs > 10 then take 10 xs else xs) = take 10 xs"
  by simp

lemma get_database_stats_report:
  assumes "get_database_stats E storage = Inr (StatsReport s)"
  shows "\<exists>coll cnt results.
      collection storage = Inr coll \<and> coll_count coll = Inr cnt
      \<and> coll_get coll = Inr results
      \<and> (ids results = [] \<longrightarrow> s = init_stats cnt)
      \<and> (ids results \<noteq> [] \<longrightarrow>
         (\<exists>S. scan E (documents results) 0 (metadatas results) (initial_scan_state cnt) = Inr S
           \<and> tags s = tags S \<and> oldest_memory s = oldest_memory S
           \<and> newest_memory s = newest_memory S
           \<and> top_tags s = Some (take 10 (sorted_reverse snd (tags S)))))"
proof -
  from assms obtain coll where c: "collection storage = Inr coll"
    by (cases "collection storage") (simp_all add: get_database_stats_def split: if_splits)
  from assms c obtain cnt where n: "coll_count coll = Inr cnt"
    by (cases "coll_count coll") (simp_all add: get_database_stats_def split: if_splits)
  from assms c n obtain results where g: "coll_get coll = Inr results"
    by (cases "coll_get coll") (simp_all add: get_database_stats_def split: if_splits)
  have e: "s = init_stats cnt" if "ids results = []"
    using assms c n g that by (simp add: get_database_stats_def)
  have f: "\<exists>S. scan E (documents results) 0 (metadatas results) (initial_scan_state cnt) = Inr S
           \<and> tags s = tags S \<and> oldest_memory s = oldest_memory S
           \<and> newest_memory s = newest_memory S
           \<and> top_tags s = Some (take 10 (sorted_reverse snd (tags S)))"
    if ne: "ids results \<noteq> []"
  proof (cases "scan E (documents results) 0 (metadatas results) (initial_scan_state cnt)")
    case (Inl x)
    then show ?thesis
      using assms c n g ne
      by (simp add: get_database_stats_def initial_scan_state_def split: if_splits)
  next
    case (Inr S)
    have "s = (let stats1 = stats.truncate S;
                   stats2 = (if cnt > 0 then
                               stats1\<lparr>avg_content_length :=
                                 fround E (real_of_int (total_content_length stats1)
                                           / real_of_int cnt)\<rparr>
                             else stats1);
                   sorted_tags = sorted_reverse snd (tags stats2)
               in stats2\<lparr>top_tags := Some (take 10 sorted_tags)\<rparr>)"
      using assms c n g ne Inr
      by (simp add: get_database_stats_def initial_scan_state_def Let_def top_ten
               del: take_all_iff)
    then have "tags s = tags S \<and> oldest_memory s = oldest_memory S
           \<and> newest_memory s = newest_memory S
           \<and> top_tags s = Some (take 10 (sorted_reverse snd (tags S)))"
      by (simp add: Let_def stats.truncate_def)
    then show ?thesis using Inr by simp
  qed
  show ?thesis using c n g e f by blast
qed

lemma sorted_reverse_desc: "sorted_wrt (\<lambda>a b. key b \<le> key a) (sorted_reverse key xs)"
proof -
  have "sorted (map key (sort_key key (rev xs)))" by simp
  then have "sorted_wrt (\<lambda>x y. key x \<le> key y) (sort_key key (rev xs))"
    by (simp only: sorted_map)
  then show ?thesis by (simp add: sorted_reverse_def sorted_wrt_rev)
qed

lemma sorted_reverse_stable:
  "filter (\<lambda>x. key x = k) (sorted_reverse key xs) = filter (\<lambda>x. key x = k) xs"
proof -
  have "filter (\<lambda>x. key x = k) (rev (sort_key key (rev xs)))
        = rev (filter (\<lambda>x. key x = k) (sort_key key (rev xs)))"
    by (simp add: rev_filter)
  also have "\<dots> = rev (filter (\<lambda>x. key x = k) (rev xs))"
    by (simp only: sort_key_stable)
  also have "\<dots> = filter (\<lambda>x. key x = k) xs"
    by (simp add: rev_filter)
  finally show ?thesis by (simp add: sorted_reverse_def)
qed

lemma set_sorted_reverse: "set (sorted_reverse key xs) = set xs"
  by (simp add: sorted_reverse_def)

lemma length_sorted_reverse: "length (sorted_reverse key xs) = length xs"
  by (simp add: sorted_reverse_def)

lemma take_dominates:
  assumes "sorted_wrt (\<lambda>a b. key b \<le> key a) xs" and "y \<in> set (take n xs)"
    and "x \<in> set xs" and "x \<notin> set (take n xs)"
  shows "key x \<le> key (y::'a)"
proof -
  have "x \<in> set (drop n xs)"
    using assms(3,4) by (metis Un_iff append_take_drop_id set_append)
  moreover have "sorted_wrt (\<lambda>a b. key b \<le> key a) (take n xs @ drop n xs)"
    using assms(1) by simp
  ultimately show ?thesis
    using assms(2) unfolding sorted_wrt_append by blast
qed

lemma demo_epochs:
  "demo_isoformat (Fin 100) = Inr ''epoch100''"
  "demo_isoformat (Fin (- 5)) = Inr ''epoch-5''"
  "demo_isoformat (Fin 250) = Inr ''epoch250''"
  by (simp_all add: demo_isoformat_def str_int_def str_nat.simps digit_char_def)

lemma demo_tagged_stats:
  "get_database_stats demo_env demo_tagged_store = Inr (StatsReport demo_tagged_report)"
  by (simp add: get_database_stats_def demo_tagged_store_def demo_tagged_collection_def
      demo_tagged_results_def demo_tagged_report_def demo_env_def demo_loads_def
      demo_float_of_str_def demo_epochs Let_def init_stats_def py_index_def dict_get_def
      dict_incr_def tag_stats_def timestamp_stats_def try_timestamp_def stats.extend_def
      stats.truncate_def sorted_reverse_def)

lemma demo_counted_tags:
  "counted_tags demo_env (metadatas demo_tagged_results) = [PStr ''a'', PStr ''b'', PStr ''b'']"
  by (simp add: counted_tags_def record_tags_def demo_tagged_results_def demo_env_def
      demo_loads_def dict_get_def)

text \<open>
  C9. When \<open>get_database_stats\<close> produces the \<open>top_tags\<close> view, the view holds
  \<open>min 10 n\<close> of the \<open>n\<close> distinct tags, in descending order of their counts;
  no tag left out has a higher count than a tag in the view; tags of equal count
  stand in the order of the histogram, which (for tags that are strings) is the order
  in which the scan first met them, each with the number of its occurrences.
\<close>

theorem top_tags_view:
  assumes "get_database_stats E storage = Inr (StatsReport s)" and "top_tags s = Some tt"
  shows "length tt = min 10 (length (tags s))
     \<and> sorted_wrt (\<lambda>a b. snd b \<le> snd a) tt
     \<and> set tt \<subseteq> set (tags s)
     \<and> (\<forall>x \<in> set (tags s) - set tt. \<forall>y \<in> set tt. snd x \<le> snd y)
     \<and> (\<forall>k. prefix (filter (\<lambda>x. snd x = k) tt) (filter (\<lambda>x. snd x = k) (tags s)))
     \<and> (\<forall>coll results.
           collection storage = Inr coll \<and> coll_get coll = Inr results
           \<and> list_all is_str (counted_tags E (metadatas results)) \<longrightarrow>
           map fst (tags s) = first_seen (counted_tags E (metadatas results))
           \<and> (\<forall>t. dict_get (tags s) t 0
                    = int (count_list (counted_tags E (metadatas results)) t)))"
proof -
  from get_database_stats_report[OF assms(1)] obtain coll cnt results where
    c: "collection storage = Inr coll" and n: "coll_count coll = Inr cnt"
    and g: "coll_get coll = Inr results"
    and e: "ids results = [] \<longrightarrow> s = init_stats cnt"
    and f: "ids results \<noteq> [] \<longrightarrow>
         (\<exists>S. scan E (documents results) 0 (metadatas results) (initial_scan_state cnt) = Inr S
           \<and> tags s = tags S \<and> oldest_memory s = oldest_memory S
           \<and> newest_memory s = newest_memory S
           \<and> top_tags s = Some (take 10 (sorted_reverse snd (tags S))))"
    by blast
  have ne: "ids results \<noteq> []"
    using e assms(2) by (auto simp: init_stats_def)
  from f ne obtain S where
    sc: "scan E (documents results) 0 (metadatas results) (initial_scan_state cnt) = Inr S"
    and tg: "tags s = tags S"
    and tt: "top_tags s = Some (take 10 (sorted_reverse snd (tags S)))"
    by blast
  let ?h = "tags s"
  let ?srt = "sorted_reverse snd ?h"
  have tt_eq: "tt = take 10 ?srt" using tt tg assms(2) by simp
  have desc: "sorted_wrt (\<lambda>a b. snd b \<le> snd a) ?srt" by (rule sorted_reverse_desc)
  have 1: "length tt = min 10 (length ?h)"
    by (simp add: tt_eq length_sorted_reverse)
  have 2: "sorted_wrt (\<lambda>a b. snd b \<le> snd a) tt"
    unfolding tt_eq using desc by (rule sorted_wrt_take)
  have 3: "set tt \<subseteq> set ?h"
    unfolding tt_eq using set_take_subset[of 10 ?srt] by (simp add: set_sorted_reverse)
  have 4: "\<forall>x \<in> set ?h - set tt. \<forall>y \<in> set tt. snd x \<le> snd y"
  proof (intro ballI)
    fix x y assume x: "x \<in> set ?h - set tt" and y: "y \<in> set tt"
    have "x \<in> set ?srt" using x by (simp add: set_sorted_reverse)
    moreover have "x \<notin> set (take 10 ?srt)" using x tt_eq by simp
    moreover have "y \<in> set (take 10 ?srt)" using y tt_eq by simp
    ultimately show "snd x \<le> snd y" using take_dominates[OF desc] by blast
  qed
  have 5: "\<forall>k. prefix (filter (\<lambda>x. snd x = k) tt) (filter (\<lambda>x. snd x = k) ?h)"
  proof
    fix k
    have "prefix (filter (\<lambda>x. snd x = k) (take 10 ?srt)) (filter (\<lambda>x. snd x = k) ?srt)"
      by (rule filter_mono_prefix[OF take_is_prefix])
    then show "prefix (filter (\<lambda>x. snd x = k) tt) (filter (\<lambda>x. snd x = k) ?h)"
      by (simp add: tt_eq sorted_reverse_stable)
  qed
  have init: "hist_ok [] (tags (initial_scan_state cnt))"
    by (simp add: hist_ok_def initial_scan_state_def init_stats_def stats.extend_def
        first_seen_def dict_get_def)
  have ok: "hist_ok (counted_tags E (metadatas results)) ?h"
    using scan_tags[OF sc init] tg by simp
  have 6: "\<forall>coll' results'.
           collection storage = Inr coll' \<and> coll_get coll' = Inr results'
           \<and> list_all is_str (counted_tags E (metadatas results')) \<longrightarrow>
           map fst ?h = first_seen (counted_tags E (metadatas results'))
           \<and> (\<forall>t. dict_get ?h t 0
                    = int (count_list (counted_tags E (metadatas results')) t))"
    using ok c g by (auto simp: hist_ok_def)
  show ?thesis using 1 2 3 4 5 6 by blast
qed

theorem top_tags_view_witness:
  "length [(PStr ''b'', 2 :: int), (PStr ''a'', 1)] = min 10 (length (tags demo_tagged_report))
   \<and> sorted_wrt (\<lambda>a b. snd b \<le> snd a) [(PStr ''b'', 2 :: int), (PStr ''a'', 1)]
   \<and> set [(PStr ''b'', 2 :: int), (PStr ''a'', 1)] \<subseteq> set (tags demo_tagged_report)
   \<and> (\<forall>k. prefix (filter (\<lambda>x. snd x = k) [(PStr ''b'', 2 :: int), (PStr ''a'', 1)])
                (filter (\<lambda>x. snd x = k) (tags demo_tagged_report)))
   \<and> map fst (tags demo_tagged_report) = first_seen [PStr ''a'', PStr ''b'', PStr ''b'']
   \<and> dict_get (tags demo_tagged_report) (PStr ''b'') 0
       = int (count_list [PStr ''a'', PStr ''b'', PStr ''b''] (PStr ''b''))"
proof -
  have t: "top_tags demo_tagged_report = Some [(PStr ''b'', 2), (PStr ''a'', 1)]"
    by (simp add: demo_tagged_report_def)
  have c: "collection demo_tagged_store = Inr demo_tagged_collection
           \<and> coll_get demo_tagged_collection = Inr demo_tagged_results
           \<and> list_all is_str (counted_tags demo_env (metadatas demo_tagged_results))"
    by (simp add: demo_tagged_store_def demo_tagged_collection_def demo_counted_tags)
  from top_tags_view[OF demo_tagged_stats t] c show ?thesis
    unfolding demo_counted_tags[symmetric] by blast
qed

lemma Min_snoc: "xs \<noteq> [] \<Longrightarrow> Min (set (xs @ [y])) = min y (Min (set xs))"
  by simp

lemma Max_snoc: "xs \<noteq> [] \<Longrightarrow> Max (set (xs @ [y])) = max y (Max (set xs))"
  by simp

lemma Max_zero_cons: "Max (set (0 # xs)) = (if xs = [] then 0 else max 0 (Max (set xs)))"
  by simp

lemma some_positive: "(\<exists>x \<in> set xs. (0::real) < x) \<longleftrightarrow> xs \<noteq> [] \<and> 0 < Max (set xs)"
proof (cases "xs = []")
  case True
  then show ?thesis by simp
next
  case False
  then have "(0 < Max (set xs)) = (\<exists>a\<in>set xs. 0 < a)"
    by (intro Max_gr_iff) simp_all
  then show ?thesis using False by simp
qed

lemma try_timestamp_eval:
  assumes "py_float E v = Inr (Fin y)" and "isoformat E (Fin y) = Inr str"
    and "oldest_timestamp S = Fin m" and "newest_timestamp S = Fin n"
  shows "try_timestamp E v S =
     (None,
      (if n < y then
         (if y < m then S\<lparr>oldest_timestamp := Fin y, oldest_memory := Some str\<rparr> else S)
           \<lparr>newest_timestamp := Fin y, newest_memory := Some str\<rparr>
       else (if y < m then S\<lparr>oldest_timestamp := Fin y, oldest_memory := Some str\<rparr> else S)))"
  using assms by (simp add: try_timestamp_def Let_def)

lemma try_timestamp_abs:
  assumes pf: "py_float E v = Inr (Fin y)" and iso_ok: "isoformat E (Fin y) = Inr str"
    and o: "oldest_timestamp S = Fin m" and n: "newest_timestamp S = Fin (max 0 M)"
    and om: "map_option Inr (oldest_memory S) = Some (isoformat E (Fin m))"
    and nm: "map_option Inr (newest_memory S)
             = (if 0 < M then Some (isoformat E (Fin M)) else None)"
  shows "fst (try_timestamp E v S) = None
     \<and> oldest_timestamp (snd (try_timestamp E v S)) = Fin (min y m)
     \<and> map_option Inr (oldest_memory (snd (try_timestamp E v S)))
         = Some (isoformat E (Fin (min y m)))
     \<and> newest_timestamp (snd (try_timestamp E v S)) = Fin (max 0 (max y M))
     \<and> map_option Inr (newest_memory (snd (try_timestamp E v S)))
         = (if 0 < max y M then Some (isoformat E (Fin (max y M))) else None)"
proof -
  define N where "N = max 0 M"
  have n': "newest_timestamp S = Fin N" using n by (simp add: N_def)
  note ev = try_timestamp_eval[OF pf iso_ok o n']
  consider (a) "y < m" and "N < y" | (b) "y < m" and "\<not> N < y"
    | (c) "\<not> y < m" and "N < y" | (d) "\<not> y < m" and "\<not> N < y"
    by blast
  then show ?thesis
  proof cases
    case a
    then have "try_timestamp E v S =
      (None, S\<lparr>oldest_timestamp := Fin y, oldest_memory := Some str,
                newest_timestamp := Fin y, newest_memory := Some str\<rparr>)"
      using ev by simp
    moreover have "min y m = y" "max y M = y" "max 0 y = y" "0 < y"
      using a unfolding N_def by linarith+
    ultimately show ?thesis using iso_ok by simp
  next
    case b
    then have "try_timestamp E v S =
      (None, S\<lparr>oldest_timestamp := Fin y, oldest_memory := Some str\<rparr>)"
      using ev by simp
    moreover have "min y m = y" "max 0 (max y M) = N" "(0 < max y M) = (0 < M)"
      "0 < M \<Longrightarrow> max y M = M"
      using b unfolding N_def by linarith+
    ultimately show ?thesis using iso_ok n' nm by simp
  next
    case c
    then have "try_timestamp E v S =
      (None, S\<lparr>newest_timestamp := Fin y, newest_memory := Some str\<rparr>)"
      using ev by simp
    moreover have "min y m = m" "max y M = y" "max 0 y = y" "0 < y"
      using c unfolding N_def by linarith+
    ultimately show ?thesis using iso_ok o om by simp
  next
    case d
    then have "try_timestamp E v S = (None, S)"
      using ev by simp
    moreover have "min y m = m" "max 0 (max y M) = N" "(0 < max y M) = (0 < M)"
      "0 < M \<Longrightarrow> max y M = M"
      using d unfolding N_def by linarith+
    ultimately show ?thesis using o n' om nm by simp
  qed
qed

lemma try_timestamp_step:
  assumes inv: "ts_inv E xs S" and pf: "py_float E v = Inr (Fin y)"
    and iso_ok: "isoformat E (Fin y) = Inr str"
  shows "fst (try_timestamp E v S) = None \<and> ts_inv E (xs @ [y]) (snd (try_timestamp E v S))"
proof (cases "xs = []")
  case True
  have o: "oldest_timestamp S = PInf" and n: "newest_timestamp S = Fin 0"
    and om: "oldest_memory S = None" and nm: "newest_memory S = None"
    using inv True by (simp_all add: ts_inv_def)
  show ?thesis
  proof (cases "0 < y")
    case True
    then have "try_timestamp E v S =
      (None, S\<lparr>oldest_timestamp := Fin y, oldest_memory := Some str,
                newest_timestamp := Fin y, newest_memory := Some str\<rparr>)"
      using pf iso_ok o n by (simp add: try_timestamp_def Let_def)
    then show ?thesis using \<open>xs = []\<close> True iso_ok by (simp add: ts_inv_def)
  next
    case False
    then have "try_timestamp E v S =
      (None, S\<lparr>oldest_timestamp := Fin y, oldest_memory := Some str\<rparr>)"
      using pf iso_ok o n by (simp add: try_timestamp_def Let_def)
    then show ?thesis using \<open>xs = []\<close> False iso_ok n nm by (simp add: ts_inv_def)
  qed
next
  case False
  let ?m = "Min (set xs)" and ?M = "Max (set xs)"
  have pos: "(\<exists>x \<in> set xs. 0 < x) \<longleftrightarrow> 0 < ?M"
    using some_positive[of xs] False by simp
  have pos': "(\<exists>x \<in> set (xs @ [y]). 0 < x) \<longleftrightarrow> 0 < max y ?M"
    using some_positive[of "xs @ [y]"] False by (simp add: Max_snoc del: set_append)
  have o: "oldest_timestamp S = Fin ?m" and n: "newest_timestamp S = Fin (max 0 ?M)"
    and om: "map_option Inr (oldest_memory S) = Some (isoformat E (Fin ?m))"
    using inv False by (simp_all add: ts_inv_def)
  have nm: "map_option Inr (newest_memory S)
             = (if 0 < ?M then Some (isoformat E (Fin ?M)) else None)"
    using inv False unfolding ts_inv_def pos by simp
  have minmax: "Min (set (xs @ [y])) = min y ?m" "Max (set (xs @ [y])) = max y ?M"
    "Max (set (0 # xs @ [y])) = max 0 (max y ?M)"
    using False by (simp_all add: Min_snoc Max_snoc Max_zero_cons del: set_append)
  note abs = try_timestamp_abs[OF pf iso_ok o n om nm]
  have "ts_inv E (xs @ [y]) (snd (try_timestamp E v S))"
    unfolding ts_inv_def minmax pos' using abs by simp
  then show ?thesis using abs by simp
qed

lemma ts_inv_other_fields:
  "ts_inv E xs (S\<lparr>total_content_length := a, memory_types := b, tags := c\<rparr>) = ts_inv E xs S"
  by (simp add: ts_inv_def)

lemma timestamp_stats_step:
  assumes "ts_inv E xs S" and "timestamp_stats E md S = Inr S'"
  shows "(parsed_timestamp E md = None \<longrightarrow> ts_inv E xs S')
       \<and> (\<forall>y str. parsed_timestamp E md = Some (Fin y) \<and> isoformat E (Fin y) = Inr str
             \<longrightarrow> ts_inv E (xs @ [y]) S')"
proof (cases "truthy (dict_get md ''timestamp'' PNone)")
  case False
  then show ?thesis using assms by (simp add: timestamp_stats_def parsed_timestamp_def)
next
  case True
  let ?v = "dict_get md ''timestamp'' PNone"
  show ?thesis
  proof (cases "py_float E ?v")
    case (Inl e)
    then have "try_timestamp E ?v S = (Some e, S)" by (simp add: try_timestamp_def)
    then have "S' = S" using assms(2) True
      by (simp add: timestamp_stats_def split: if_splits)
    then show ?thesis using assms(1) True Inl by (simp add: parsed_timestamp_def)
  next
    case (Inr t)
    have p: "parsed_timestamp E md = Some t" using True Inr by (simp add: parsed_timestamp_def)
    have "ts_inv E (xs @ [y]) S'" if t: "t = Fin y" and i: "isoformat E (Fin y) = Inr str" for y str
    proof -
      obtain r S1 where tt: "try_timestamp E ?v S = (r, S1)"
        by (cases "try_timestamp E ?v S")
      from try_timestamp_step[OF assms(1) _ i, of ?v] Inr t tt
      have "r = None" and "ts_inv E (xs @ [y]) S1" by simp_all
      moreover have "S' = S1" using assms(2) True tt \<open>r = None\<close>
        by (simp add: timestamp_stats_def)
      ultimately show ?thesis by simp
    qed
    then show ?thesis using p by simp
  qed
qed

lemma scan_timestamps:
  "scan E docs i mds S = Inr S' \<Longrightarrow> ts_inv E xs S
   \<Longrightarrow> parsed_timestamps E mds = map Fin ys
   \<Longrightarrow> list_all (\<lambda>y. \<exists>str. isoformat E (Fin y) = Inr str) ys
   \<Longrightarrow> ts_inv E (xs @ ys) S'"
proof (induction mds arbitrary: i S xs ys)
  case Nil
  then show ?case by simp
next
  case (Cons md rest)
  from Cons.prems(1) obtain S4 where
    ts: "timestamp_stats E md
       (S\<lparr>total_content_length := total_content_length S + int (length (docs ! i)),
          memory_types := dict_incr (memory_types S) (dict_get md ''memory_type'' (PStr '''')),
          tags := tag_stats E md (tags S)\<rparr>) = Inr S4"
    and rest: "scan E docs (Suc i) rest S4 = Inr S'"
    by (rule scan_Cons_Inr)
  have inv: "ts_inv E xs
       (S\<lparr>total_content_length := total_content_length S + int (length (docs ! i)),
          memory_types := dict_incr (memory_types S) (dict_get md ''memory_type'' (PStr '''')),
          tags := tag_stats E md (tags S)\<rparr>)"
    using Cons.prems(2) by (simp only: ts_inv_other_fields)
  note step = timestamp_stats_step[OF inv ts]
  show ?case
  proof (cases "parsed_timestamp E md")
    case None
    then have "ts_inv E xs S4" using step by simp
    moreover have "parsed_timestamps E rest = map Fin ys" using Cons.prems(3) None by simp
    ultimately show ?thesis using Cons.IH[OF rest] Cons.prems(4) by blast
  next
    case (Some t)
    then have "t # parsed_timestamps E rest = map Fin ys" using Cons.prems(3) by simp
    then obtain y ys' where ys: "ys = y # ys'" "t = Fin y" "parsed_timestamps E rest = map Fin ys'"
      by (cases ys) auto
    obtain str where "isoformat E (Fin y) = Inr str" using Cons.prems(4) ys(1) by auto
    then have "ts_inv E (xs @ [y]) S4" using step Some ys(2) by blast
    moreover have "list_all (\<lambda>y. \<exists>str. isoformat E (Fin y) = Inr str) ys'"
      using Cons.prems(4) ys(1) by simp
    ultimately have "ts_inv E ((xs @ [y]) @ ys') S'" using Cons.IH[OF rest _ ys(3)] by blast
    then show ?thesis using ys(1) by simp
  qed
qed

text \<open>
  What the extremum tracking computes where every parsed timestamp is finite and in
  the range \<^verbatim>\<open>isoformat\<close> accepts: \<open>oldest_memory\<close> is the ISO rendering of the
  minimum of the parsed timestamps; \<open>newest_memory\<close> is that of their maximum when a
  parsed timestamp is positive, and stays absent otherwise.
\<close>

lemma timestamp_extrema:
  assumes "get_database_stats E storage = Inr (StatsReport s)"
    and "collection storage = Inr coll" and "coll_get coll = Inr results"
    and "ids results \<noteq> []"
    and "parsed_timestamps E (metadatas results) = map Fin xs"
    and "list_all (\<lambda>x. \<exists>str. isoformat E (Fin x) = Inr str) xs"
  shows "map_option Inr (oldest_memory s)
           = (if xs = [] then None else Some (isoformat E (Fin (Min (set xs)))))
       \<and> map_option Inr (newest_memory s)
           = (if \<exists>x \<in> set xs. 0 < x then Some (isoformat E (Fin (Max (set xs)))) else None)"
proof -
  from get_database_stats_report[OF assms(1)] assms(2,3,4) obtain cnt S where
    sc: "scan E (documents results) 0 (metadatas results) (initial_scan_state cnt) = Inr S"
    and o: "oldest_memory s = oldest_memory S" and n: "newest_memory s = newest_memory S"
    by auto
  have init: "ts_inv E [] (initial_scan_state cnt)"
    by (simp add: ts_inv_def initial_scan_state_def init_stats_def stats.extend_def)
  have "ts_inv E ([] @ xs) S"
    by (rule scan_timestamps[OF sc init assms(5,6)])
  then show ?thesis using o n by (simp add: ts_inv_def)
qed

text \<open>
  C4. A parsed timestamp that is not positive never becomes the newest one, and a
  numeric timestamp \<open>0\<close> is not looked at. With the single timestamp \<^verbatim>\<open>"-5"\<close>, which
  parses to \<open>-5\<close>, \<open>oldest_memory\<close> is its rendering and \<open>newest_memory\<close> stays
  absent although \<open>-5\<close> is the maximum: the maximum is tracked from \<open>0\<close>, the
  minimum from infinity. With the single numeric timestamp \<open>0\<close>, which
  \<^verbatim>\<open>float\<close> accepts, the test \<^verbatim>\<open>if timestamp_str:\<close> skips the record and both stay
  absent.
\<close>

theorem get_database_stats_nonpositive_timestamp:
  "get_database_stats demo_env demo_negative_store =
     Inr (StatsReport
       \<lparr> total_memories = 1, total_content_length = 3, avg_content_length = 3,
         memory_types = [(PStr [], 1)], tags = [], oldest_memory = Some ''epoch-5'',
         newest_memory = None, collection_name = ''memory_collection'',
         embedding_model = ''all-MiniLM-L6-v2'', top_tags = Some [] \<rparr>)
   \<and> py_float demo_env (PStr ''-5'') = Inr (Fin (- 5))
   \<and> isoformat demo_env (Fin (- 5)) = Inr ''epoch-5''
   \<and> get_database_stats demo_env demo_zero_store =
     Inr (StatsReport
       \<lparr> total_memories = 1, total_content_length = 3, avg_content_length = 3,
         memory_types = [(PStr [], 1)], tags = [], oldest_memory = None,
         newest_memory = None, collection_name = ''memory_collection'',
         embedding_model = ''all-MiniLM-L6-v2'', top_tags = Some [] \<rparr>)
   \<and> py_float demo_env (PInt 0) = Inr (Fin 0)
   \<and> isoformat demo_env (Fin 0) = Inr ''epoch0''"
  by (simp add: get_database_stats_def demo_negative_store_def demo_zero_store_def demo_env_def
      demo_loads_def demo_float_of_str_def demo_epochs Let_def init_stats_def py_index_def
      dict_get_def dict_incr_def tag_stats_def timestamp_stats_def try_timestamp_def
      stats.extend_def stats.truncate_def sorted_reverse_def)
     (simp add: demo_isoformat_def str_int_def str_nat.simps digit_char_def)

end
